theory Spec2Isabelle
  imports Main "HOL-Library.Multiset" "HOL-Library.Log_Nat"
begin

section \<open>The repository migrator: data model\<close>

text \<open>
  The repository holds three variants of one class, \<open>RepositoryMigrator\<close>:
  \<^item> \<^verbatim>\<open>src/unnamed/part_000\<close>: validation, migration from a file or from organizations,
    a report at normal completion only, no stop-on-failure. Its methods carry the suffix
    \<open>0\<close> below where they differ from the other variants.
  \<^item> \<^verbatim>\<open>src/migrate-repos.js\<close>: stop-on-failure, no validation and no report. Its \<open>run\<close> is
    \<open>run1\<close> below.
  \<^item> \<^verbatim>\<open>src/export-users.js\<close> (second document, lines 35 to 269): validation,
    stop-on-failure, a report at completion and in the \<open>catch\<close> of \<open>run\<close>.
  \<open>transferRepository\<close> and \<open>migrateFromOrganizations\<close> are the same text in the last two.

  The remote platform is an environment of response streams, one per endpoint: the
  \<open>k\<close>-th request to an endpoint gets the \<open>k\<close>-th response of its stream. Since the
  program is sequential and deterministic, every run against a real remote is a run
  against some such environment.
\<close>

subsection \<open>Values\<close>

text \<open>The error a failed Octokit request throws: \<open>error.message\<close>, \<open>error.status\<close>.\<close>

record api_error =
  message :: string
  status :: "nat option"

text \<open>What the script itself throws (\<open>new Error(msg)\<close>), or a request error passing through.\<close>

datatype exn = Error string | RequestError api_error

fun exn_message :: "exn \<Rightarrow> string" where
  "exn_message (Error m) = m"
| "exn_message (RequestError e) = message e"

text \<open>
  A repository object: an element of the listing response, or an entry of the
  repository file. \<open>None\<close> in \<open>url\<close> or \<open>sshUrl\<close> is a value without a \<open>match\<close> method
  (\<open>undefined\<close>), on which \<open>.match(...)\<close> throws a TypeError.
\<close>

record repo =
  name :: string
  url :: "string option"
  sshUrl :: "string option"

datatype request =
    is_GetUser: GetUser
  | is_GetOrg: GetOrg string
  | is_GetMembership: GetMembership string string
  | is_ListRepos: ListRepos string
  | is_PostTransfer: PostTransfer string string string

text \<open>
  A file on disk as \<open>readFileSync\<close> and \<open>JSON.parse\<close> see it: \<open>Missing m\<close> cannot be read
  (the read throws with message \<open>m\<close>); \<open>Unusable m\<close> can be read, but parsing it, taking
  its \<open>length\<close> or starting to iterate it throws with message \<open>m\<close>; \<open>Entries rs\<close> parses
  to a sequence of repository objects.
\<close>

datatype disk_file = Missing string | Unusable string | Entries "repo list"

text \<open>A JavaScript number as far as the report needs it.\<close>

datatype js_number = NaN | PosInfinity | NegInfinity | Fin rat

record success_entry =
  s_repo :: string
  s_target :: string
  s_dryRun :: "bool option"
  s_timestamp :: string
  s_response :: "nat option"

record failed_entry =
  f_repo :: string
  f_error :: string
  f_status :: "nat option"
  f_timestamp :: string

record summary =
  sum_total :: nat
  sum_successful :: nat
  sum_failed :: nat
  sum_skipped :: nat
  sum_successRate :: js_number
  sum_timestamp :: string
  sum_dryRun :: bool

text \<open>
  \<open>this.results\<close>. The source pushes objects of two shapes, and nothing into \<open>skipped\<close>;
  the element type of \<open>skipped\<close> is taken to be that of \<open>failed\<close>. \<open>summary = None\<close> is the
  empty object \<open>{}\<close> of the constructor.
\<close>

record results =
  successful :: "success_entry list"
  failed :: "failed_entry list"
  skipped :: "failed_entry list"
  summary :: "summary option"

subsection \<open>Environment and state\<close>

record env =
  TARGET_ORG :: "string option"
  SOURCE_ORGS :: "string option"
  userResp :: "nat \<Rightarrow> api_error + string"
  orgResp :: "nat \<Rightarrow> api_error + unit"
  membershipResp :: "nat \<Rightarrow> api_error + string"
  reposResp :: "nat \<Rightarrow> api_error + repo list"
  transferResp :: "nat \<Rightarrow> api_error + nat"
  clock :: "nat \<Rightarrow> string"
  files :: "string \<Rightarrow> disk_file"

text \<open>
  The fields of \<open>this\<close> (\<open>targetOrg\<close> to \<open>results\<close>) and the effects of the process:
  the requests issued so far, the number of clock reads, the lines written by
  \<open>console.error\<close> and \<open>console.warn\<close> (without their leading emoji), the milliseconds
  spent in \<open>setTimeout\<close>, and the files written. The progress lines of \<open>console.log\<close> are
  not modelled. \<open>stopOnFailure\<close> is absent in part_000 and \<open>logFile\<close> in migrate-repos.js;
  their methods never read them. A written file holds the \<open>results\<close> object that
  \<open>JSON.stringify\<close> serialises (which prints a \<open>NaN\<close> as \<open>null\<close>).
\<close>

record state =
  targetOrg :: string
  sourceOrgs :: "string list"
  dryRun :: bool
  stopOnFailure :: bool
  logFile :: string
  results :: results
  calls :: "request list"
  ticks :: nat
  stderr :: "string list"
  slept :: nat
  written :: "(string \<times> results) list"

definition user_calls :: "state \<Rightarrow> nat" where
  "user_calls s = length (filter is_GetUser (calls s))"

definition org_calls :: "state \<Rightarrow> nat" where
  "org_calls s = length (filter is_GetOrg (calls s))"

definition membership_calls :: "state \<Rightarrow> nat" where
  "membership_calls s = length (filter is_GetMembership (calls s))"

definition list_calls :: "state \<Rightarrow> nat" where
  "list_calls s = length (filter is_ListRepos (calls s))"

definition transfer_calls :: "state \<Rightarrow> nat" where
  "transfer_calls s = length (filter is_PostTransfer (calls s))"

text \<open>\<open>this.octokit.request(...)\<close>, one function per endpoint used.\<close>

definition request_user :: "env \<Rightarrow> state \<Rightarrow> (api_error + string) \<times> state" where
  "request_user E s = (userResp E (user_calls s), s\<lparr>calls := calls s @ [GetUser]\<rparr>)"

definition request_org :: "env \<Rightarrow> string \<Rightarrow> state \<Rightarrow> (api_error + unit) \<times> state" where
  "request_org E org s = (orgResp E (org_calls s), s\<lparr>calls := calls s @ [GetOrg org]\<rparr>)"

definition request_membership ::
  "env \<Rightarrow> string \<Rightarrow> string \<Rightarrow> state \<Rightarrow> (api_error + string) \<times> state" where
  "request_membership E org username s =
     (membershipResp E (membership_calls s),
      s\<lparr>calls := calls s @ [GetMembership org username]\<rparr>)"

definition request_repos :: "env \<Rightarrow> string \<Rightarrow> state \<Rightarrow> (api_error + repo list) \<times> state" where
  "request_repos E org s = (reposResp E (list_calls s), s\<lparr>calls := calls s @ [ListRepos org]\<rparr>)"

definition request_transfer ::
  "env \<Rightarrow> string \<Rightarrow> string \<Rightarrow> string \<Rightarrow> state \<Rightarrow> (api_error + nat) \<times> state" where
  "request_transfer E owner rname new_owner s =
     (transferResp E (transfer_calls s),
      s\<lparr>calls := calls s @ [PostTransfer owner rname new_owner]\<rparr>)"

text \<open>\<open>new Date().toISOString()\<close>.\<close>

definition now :: "env \<Rightarrow> state \<Rightarrow> string \<times> state" where
  "now E s = (clock E (ticks s), s\<lparr>ticks := Suc (ticks s)\<rparr>)"

text \<open>\<open>await new Promise(resolve => setTimeout(resolve, ms))\<close>.\<close>

definition sleep :: "nat \<Rightarrow> state \<Rightarrow> state" where
  "sleep ms s = s\<lparr>slept := slept s + ms\<rparr>"

definition console_error :: "string \<Rightarrow> state \<Rightarrow> state" where
  "console_error line s = s\<lparr>stderr := stderr s @ [line]\<rparr>"

definition console_warn :: "string \<Rightarrow> state \<Rightarrow> state" where
  "console_warn line s = s\<lparr>stderr := stderr s @ [line]\<rparr>"

definition push_successful :: "success_entry \<Rightarrow> state \<Rightarrow> state" where
  "push_successful e s = s\<lparr>results := (results s)\<lparr>successful := successful (results s) @ [e]\<rparr>\<rparr>"

definition push_failed :: "failed_entry \<Rightarrow> state \<Rightarrow> state" where
  "push_failed e s = s\<lparr>results := (results s)\<lparr>failed := failed (results s) @ [e]\<rparr>\<rparr>"

section \<open>Operations\<close>

subsection \<open>transferRepository\<close>

text \<open>The three objects \<open>transferRepository\<close> returns.\<close>

datatype transfer_result = DryOk | LiveOk nat | Failure api_error

fun success :: "transfer_result \<Rightarrow> bool" where
  "success DryOk = True"
| "success (LiveOk _) = True"
| "success (Failure _) = False"

definition fullName :: "string \<Rightarrow> repo \<Rightarrow> string" where
  "fullName sourceOrg r = sourceOrg @ ''/'' @ name r"

text \<open>migrate-repos.js lines 54 to 102, export-users.js lines 97 to 145.\<close>

definition transferRepository ::
  "env \<Rightarrow> repo \<Rightarrow> string \<Rightarrow> state \<Rightarrow> (exn + transfer_result) \<times> state" where
  "transferRepository E r sourceOrg s =
     (let repoName = name r; repoFullName = sourceOrg @ ''/'' @ repoName in
      if dryRun s then
        (let (t, s1) = now E s in
         (Inr DryOk,
          push_successful
            \<lparr>s_repo = repoFullName, s_target = targetOrg s1 @ ''/'' @ repoName,
             s_dryRun = Some True, s_timestamp = t, s_response = None\<rparr> s1))
      else
        (case request_transfer E sourceOrg repoName (targetOrg s) s of
           (Inr st, s1) \<Rightarrow>
             (let (t, s2) = now E s1 in
              (Inr (LiveOk st),
               push_successful
                 \<lparr>s_repo = repoFullName, s_target = targetOrg s2 @ ''/'' @ repoName,
                  s_dryRun = None, s_timestamp = t, s_response = Some st\<rparr> s2))
         | (Inl err, s1) \<Rightarrow>
             (let s2 = console_error (repoFullName @ '': '' @ message err) s1;
                  (t, s3) = now E s2;
                  s4 = push_failed
                         \<lparr>f_repo = repoFullName, f_error = message err,
                          f_status = status err, f_timestamp = t\<rparr> s3
              in if \<not> dryRun s4 \<and> stopOnFailure s4
                 then (Inl (Error (''Migration failed for '' @ repoFullName @ '': '' @ message err)), s4)
                 else (Inr (Failure err), s4))))"

text \<open>part_000 lines 65 to 112: the same, without the \<open>throw\<close> in the \<open>catch\<close>.\<close>

definition transferRepository0 ::
  "env \<Rightarrow> repo \<Rightarrow> string \<Rightarrow> state \<Rightarrow> (exn + transfer_result) \<times> state" where
  "transferRepository0 E r sourceOrg s =
     (let repoName = name r; repoFullName = sourceOrg @ ''/'' @ repoName in
      if dryRun s then
        (let (t, s1) = now E s in
         (Inr DryOk,
          push_successful
            \<lparr>s_repo = repoFullName, s_target = targetOrg s1 @ ''/'' @ repoName,
             s_dryRun = Some True, s_timestamp = t, s_response = None\<rparr> s1))
      else
        (case request_transfer E sourceOrg repoName (targetOrg s) s of
           (Inr st, s1) \<Rightarrow>
             (let (t, s2) = now E s1 in
              (Inr (LiveOk st),
               push_successful
                 \<lparr>s_repo = repoFullName, s_target = targetOrg s2 @ ''/'' @ repoName,
                  s_dryRun = None, s_timestamp = t, s_response = Some st\<rparr> s2))
         | (Inl err, s1) \<Rightarrow>
             (let s2 = console_error (''Failed to transfer '' @ repoFullName @ '': '' @ message err) s1;
                  (t, s3) = now E s2;
                  s4 = push_failed
                         \<lparr>f_repo = repoFullName, f_error = message err,
                          f_status = status err, f_timestamp = t\<rparr> s3
              in (Inr (Failure err), s4))))"

subsection \<open>listRepositories\<close>

text \<open>
  The same in the three variants (part_000 lines 41 to 60): the \<open>catch\<close> logs and returns
  the empty array. The result type has room for an exception, so that not propagating
  one is a property and not a matter of typing.
\<close>

definition listRepositories :: "env \<Rightarrow> string \<Rightarrow> state \<Rightarrow> (exn + repo list) \<times> state" where
  "listRepositories E org s =
     (case request_repos E org s of
        (Inr data, s1) \<Rightarrow> (Inr data, s1)
      | (Inl err, s1) \<Rightarrow>
          (Inr [], console_error (''Error listing repositories for '' @ org @ '': '' @ message err) s1))"

subsection \<open>migrateFromOrganizations\<close>

text \<open>
  migrate-repos.js lines 104 to 120, export-users.js lines 185 to 201. The inner
  \<open>for\<close> loop over the repositories of one organization is \<open>transferEach\<close>.
\<close>

fun transferEach :: "env \<Rightarrow> string \<Rightarrow> repo list \<Rightarrow> state \<Rightarrow> (exn + unit) \<times> state" where
  "transferEach E sourceOrg [] s = (Inr (), s)"
| "transferEach E sourceOrg (r # rs) s =
     (case transferRepository E r sourceOrg s of
        (Inl ex, s1) \<Rightarrow> (Inl ex, s1)
      | (Inr result, s1) \<Rightarrow>
          if \<not> success result \<and> \<not> dryRun s1
          then (Inl (Error ''Migration stopped due to failure''), s1)
          else transferEach E sourceOrg rs (sleep 1000 s1))"

fun migrateFromOrganizations :: "env \<Rightarrow> string list \<Rightarrow> state \<Rightarrow> (exn + unit) \<times> state" where
  "migrateFromOrganizations E [] s = (Inr (), s)"
| "migrateFromOrganizations E (sourceOrg # orgs) s =
     (case listRepositories E sourceOrg s of
        (Inl ex, s1) \<Rightarrow> (Inl ex, s1)
      | (Inr repos, s1) \<Rightarrow>
          (case transferEach E sourceOrg repos s1 of
             (Inl ex, s2) \<Rightarrow> (Inl ex, s2)
           | (Inr _, s2) \<Rightarrow> migrateFromOrganizations E orgs s2))"

text \<open>part_000 lines 186 to 199: the result of the transfer is not looked at.\<close>

fun transferEach0 :: "env \<Rightarrow> string \<Rightarrow> repo list \<Rightarrow> state \<Rightarrow> (exn + unit) \<times> state" where
  "transferEach0 E sourceOrg [] s = (Inr (), s)"
| "transferEach0 E sourceOrg (r # rs) s =
     (case transferRepository0 E r sourceOrg s of
        (Inl ex, s1) \<Rightarrow> (Inl ex, s1)
      | (Inr result, s1) \<Rightarrow> transferEach0 E sourceOrg rs (sleep 1000 s1))"

fun migrateFromOrganizations0 :: "env \<Rightarrow> string list \<Rightarrow> state \<Rightarrow> (exn + unit) \<times> state" where
  "migrateFromOrganizations0 E [] s = (Inr (), s)"
| "migrateFromOrganizations0 E (sourceOrg # orgs) s =
     (case listRepositories E sourceOrg s of
        (Inl ex, s1) \<Rightarrow> (Inl ex, s1)
      | (Inr repos, s1) \<Rightarrow>
          (case transferEach0 E sourceOrg repos s1 of
             (Inl ex, s2) \<Rightarrow> (Inl ex, s2)
           | (Inr _, s2) \<Rightarrow> migrateFromOrganizations0 E orgs s2))"

subsection \<open>validateSetup\<close>

definition quote :: string where
  "quote = [CHR 0x27]"

text \<open>
  The body of the third \<open>try\<close> block (part_000 lines 140 to 148): the argument object is
  evaluated first, so the second \<open>GET /user\<close> goes out before the membership request.
\<close>

definition checkPermissions :: "env \<Rightarrow> state \<Rightarrow> (exn + unit) \<times> state" where
  "checkPermissions E s =
     (case request_user E s of
        (Inl err, s1) \<Rightarrow> (Inl (RequestError err), s1)
      | (Inr login, s1) \<Rightarrow>
          (case request_membership E (targetOrg s1) login s1 of
             (Inl err, s2) \<Rightarrow> (Inl (RequestError err), s2)
           | (Inr role, s2) \<Rightarrow>
               if role \<notin> set [''admin'', ''owner'']
               then (Inl (Error (''Insufficient permissions for target org. Need admin/owner, have: '' @ role)), s2)
               else (Inr (), s2)))"

text \<open>part_000 lines 117 to 152: the \<open>catch\<close> of the third block warns.\<close>

definition validateSetup0 :: "env \<Rightarrow> state \<Rightarrow> (exn + unit) \<times> state" where
  "validateSetup0 E s =
     (case request_user E s of
        (Inl err, s1) \<Rightarrow> (Inl (Error (''Authentication failed: '' @ message err)), s1)
      | (Inr user, s1) \<Rightarrow>
          (case request_org E (targetOrg s1) s1 of
             (Inl err, s2) \<Rightarrow>
               (Inl (Error (''Target organization '' @ quote @ targetOrg s2 @ quote @ '' not found or no access'')), s2)
           | (Inr org, s2) \<Rightarrow>
               (case checkPermissions E s2 of
                  (Inl ex, s3) \<Rightarrow>
                    (Inr (), console_warn (''Could not verify permissions for target org: '' @ exn_message ex) s3)
                | (Inr _, s3) \<Rightarrow> (Inr (), s3))))"

text \<open>export-users.js lines 150 to 180: the \<open>catch\<close> of the third block is empty.\<close>

definition validateSetup :: "env \<Rightarrow> state \<Rightarrow> (exn + unit) \<times> state" where
  "validateSetup E s =
     (case request_user E s of
        (Inl err, s1) \<Rightarrow> (Inl (Error (''Authentication failed: '' @ message err)), s1)
      | (Inr user, s1) \<Rightarrow>
          (case request_org E (targetOrg s1) s1 of
             (Inl err, s2) \<Rightarrow>
               (Inl (Error (''Target organization '' @ quote @ targetOrg s2 @ quote @ '' not found or no access'')), s2)
           | (Inr org, s2) \<Rightarrow>
               (case checkPermissions E s2 of
                  (Inl ex, s3) \<Rightarrow> (Inr (), s3)
                | (Inr _, s3) \<Rightarrow> (Inr (), s3))))"

subsection \<open>migrateFromFile (part_000 only)\<close>

text \<open>
  The two patterns \<^verbatim>\<open>/github\.com\/([^\/]+)\//\<close> and \<^verbatim>\<open>/github\.com:([^\/]+)\//\<close>: a literal, a
  non-empty run of characters other than \<open>/\<close>, and a \<open>/\<close>. \<open>capture_owner\<close> matches what
  follows the literal and returns the group; \<open>match_owner\<close> tries the start positions
  from the left, as \<open>String.prototype.match\<close> does.
\<close>

definition capture_owner :: "string \<Rightarrow> string option" where
  "capture_owner rest =
     (let seg = takeWhile (\<lambda>c. c \<noteq> CHR ''/'') rest
      in if seg \<noteq> [] \<and> length seg < length rest then Some seg else None)"

fun match_owner :: "string \<Rightarrow> string \<Rightarrow> string option" where
  "match_owner lit [] = None"
| "match_owner lit (c # cs) =
     (if take (length lit) (c # cs) = lit
      then (case capture_owner (drop (length lit) (c # cs)) of
              Some g \<Rightarrow> Some g
            | None \<Rightarrow> match_owner lit cs)
      else match_owner lit cs)"

definition matchTypeError :: exn where
  "matchTypeError = Error (''Cannot read properties of undefined (reading '' @ quote @ ''match'' @ quote @ '')'')"

text \<open>
  \<open>repo.url.match(...) || repo.sshUrl.match(...)\<close>: \<open>Inr (Some org)\<close> is a match with group
  \<open>org\<close>, \<open>Inr None\<close> is \<open>null\<close>, \<open>Inl\<close> the TypeError of a \<open>match\<close> on \<open>undefined\<close>.
\<close>

definition orgMatch :: "repo \<Rightarrow> exn + string option" where
  "orgMatch r =
     (case url r of
        None \<Rightarrow> Inl matchTypeError
      | Some u \<Rightarrow>
          (case match_owner ''github.com/'' u of
             Some g \<Rightarrow> Inr (Some g)
           | None \<Rightarrow>
               (case sshUrl r of
                  None \<Rightarrow> Inl matchTypeError
                | Some v \<Rightarrow> Inr (match_owner ''github.com:'' v))))"

fun migrateEntries :: "env \<Rightarrow> repo list \<Rightarrow> state \<Rightarrow> (exn + unit) \<times> state" where
  "migrateEntries E [] s = (Inr (), s)"
| "migrateEntries E (r # rs) s =
     (case orgMatch r of
        Inl ex \<Rightarrow> (Inl ex, s)
      | Inr None \<Rightarrow>
          migrateEntries E rs (console_warn (''Could not determine organization for '' @ name r) s)
      | Inr (Some sourceOrg) \<Rightarrow>
          (case transferRepository0 E r sourceOrg s of
             (Inl ex, s1) \<Rightarrow> (Inl ex, s1)
           | (Inr _, s1) \<Rightarrow> migrateEntries E rs (sleep 1000 s1)))"

definition migrateFromFile :: "env \<Rightarrow> string \<Rightarrow> state \<Rightarrow> (exn + unit) \<times> state" where
  "migrateFromFile E filePath s =
     (let caught = (\<lambda>m s'. (Inr (), console_error (''Error reading file '' @ filePath @ '': '' @ m) s'))
      in case files E filePath of
           Missing m \<Rightarrow> caught m s
         | Unusable m \<Rightarrow> caught m s
         | Entries repos \<Rightarrow>
             (case migrateEntries E repos s of
                (Inl ex, s1) \<Rightarrow> caught (exn_message ex) s1
              | (Inr _, s1) \<Rightarrow> (Inr (), s1)))"

definition existsSync :: "env \<Rightarrow> string \<Rightarrow> bool" where
  "existsSync E path = (case files E path of Missing _ \<Rightarrow> False | _ \<Rightarrow> True)"

subsection \<open>generateReport\<close>

text \<open>
  JavaScript numbers are IEEE 754 doubles. \<open>round_double\<close> rounds a rational to the
  nearest double, ties to even (53 bits of precision, exponents from \<open>-1022\<close>, overflow
  to an infinity). The operands of the report are array lengths, below \<open>2 ^ 32\<close>, which
  are doubles themselves.
\<close>

definition pow2 :: "int \<Rightarrow> rat" where
  "pow2 e = (if 0 \<le> e then 2 ^ nat e else 1 / 2 ^ nat (- e))"

definition round_half_even :: "rat \<Rightarrow> int" where
  "round_half_even x =
     (let n = \<lfloor>x\<rfloor>; d = x - of_int n
      in if d < 1 / 2 then n else if 1 / 2 < d then n + 1 else if even n then n else n + 1)"

text \<open>The binary exponent \<open>\<lfloor>log\<^sub>2 x\<rfloor>\<close> of a positive rational.\<close>

definition ilog2 :: "rat \<Rightarrow> int" where
  "ilog2 x = (let (p, q) = quotient_of x; d = bitlen p - bitlen q
              in if pow2 d \<le> x then d else d - 1)"

definition round_double :: "rat \<Rightarrow> js_number" where
  "round_double x =
     (if x = 0 then Fin 0
      else let e = max (ilog2 \<bar>x\<bar>) (- 1022);
               ulp = pow2 (e - 52);
               y = of_int (round_half_even (x / ulp)) * ulp
           in if pow2 1024 \<le> y then PosInfinity
              else if y \<le> - pow2 1024 then NegInfinity
              else Fin y)"

text \<open>\<open>a / b\<close> for two array lengths, and \<open>x * c\<close> for a number and a natural constant.\<close>

definition js_div :: "nat \<Rightarrow> nat \<Rightarrow> js_number" where
  "js_div a b =
     (if b = 0 then (if a = 0 then NaN else PosInfinity)
      else round_double (of_nat a / of_nat b))"

fun js_times :: "js_number \<Rightarrow> nat \<Rightarrow> js_number" where
  "js_times NaN c = NaN"
| "js_times PosInfinity c = (if c = 0 then NaN else PosInfinity)"
| "js_times NegInfinity c = (if c = 0 then NaN else NegInfinity)"
| "js_times (Fin x) c = round_double (x * of_nat c)"

text \<open>part_000 lines 204 to 231, export-users.js lines 206 to 229.\<close>

definition generateReport :: "env \<Rightarrow> state \<Rightarrow> state" where
  "generateReport E s =
     (let r = results s;
          (t, s1) = now E s;
          s2 = s1\<lparr>results := r\<lparr>summary := Some
                 \<lparr>sum_total = length (successful r) + length (failed r) + length (skipped r),
                  sum_successful = length (successful r),
                  sum_failed = length (failed r),
                  sum_skipped = length (skipped r),
                  sum_successRate =
                    js_times (js_div (length (successful r)) (length (successful r) + length (failed r))) 100,
                  sum_timestamp = t,
                  sum_dryRun = dryRun s1\<rparr>\<rparr>\<rparr>
      in s2\<lparr>written := written s2 @ [(logFile s2, results s2)]\<rparr>)"

subsection \<open>run\<close>

text \<open>How \<open>run\<close> ends: it returns, or \<open>process.exit\<close> ends the process with a status.\<close>

datatype ending = Returned | Exit nat

text \<open>part_000 lines 236 to 260. \<open>run0_try\<close> is the \<open>try\<close> block.\<close>

definition run0_try :: "env \<Rightarrow> state \<Rightarrow> (exn + unit) \<times> state" where
  "run0_try E s =
     (case validateSetup0 E s of
        (Inl ex, s1) \<Rightarrow> (Inl ex, s1)
      | (Inr _, s1) \<Rightarrow>
          (case (if existsSync E ''test-repos.json'' then migrateFromFile E ''test-repos.json'' s1
                 else if length (sourceOrgs s1) > 0 then migrateFromOrganizations0 E (sourceOrgs s1) s1
                 else (Inl (Error ''No source organizations specified and no repos file found''), s1)) of
             (Inl ex, s2) \<Rightarrow> (Inl ex, s2)
           | (Inr _, s2) \<Rightarrow> (Inr (), generateReport E s2)))"

definition run0 :: "env \<Rightarrow> state \<Rightarrow> ending \<times> state" where
  "run0 E s =
     (case run0_try E s of
        (Inl ex, s1) \<Rightarrow> (Exit 1, console_error (''Migration failed: '' @ exn_message ex) s1)
      | (Inr _, s1) \<Rightarrow> (Returned, s1))"

text \<open>migrate-repos.js lines 122 to 141.\<close>

definition run1_try :: "env \<Rightarrow> state \<Rightarrow> (exn + unit) \<times> state" where
  "run1_try E s =
     (if length (sourceOrgs s) > 0 then migrateFromOrganizations E (sourceOrgs s) s
      else (Inl (Error ''No source organizations specified''), s))"

definition run1 :: "env \<Rightarrow> state \<Rightarrow> ending \<times> state" where
  "run1 E s =
     (case run1_try E s of
        (Inl ex, s1) \<Rightarrow> (Exit 1, console_error (''Migration failed: '' @ exn_message ex) s1)
      | (Inr _, s1) \<Rightarrow> (Returned, s1))"

text \<open>export-users.js lines 234 to 258.\<close>

definition run_try :: "env \<Rightarrow> state \<Rightarrow> (exn + unit) \<times> state" where
  "run_try E s =
     (case validateSetup E s of
        (Inl ex, s1) \<Rightarrow> (Inl ex, s1)
      | (Inr _, s1) \<Rightarrow>
          (case (if length (sourceOrgs s1) > 0 then migrateFromOrganizations E (sourceOrgs s1) s1
                 else (Inl (Error ''No source organizations specified''), s1)) of
             (Inl ex, s2) \<Rightarrow> (Inl ex, s2)
           | (Inr _, s2) \<Rightarrow> (Inr (), generateReport E s2)))"

definition run :: "env \<Rightarrow> state \<Rightarrow> ending \<times> state" where
  "run E s =
     (case run_try E s of
        (Inl ex, s1) \<Rightarrow>
          (Exit 1, generateReport E (console_error (''Migration failed: '' @ exn_message ex) s1))
      | (Inr _, s1) \<Rightarrow> (Returned, s1))"

subsection \<open>The constructor\<close>

text \<open>\<open>String.prototype.split\<close> with a one-character separator.\<close>

fun js_split :: "char \<Rightarrow> string \<Rightarrow> string list" where
  "js_split c [] = [[]]"
| "js_split c (x # xs) =
     (if x = c then [] # js_split c xs
      else (case js_split c xs of
              [] \<Rightarrow> [[x]]
            | y # ys \<Rightarrow> (x # y) # ys))"

definition emptyResults :: results where
  "emptyResults = \<lparr>successful = [], failed = [], skipped = [], summary = None\<rparr>"

text \<open>
  part_000 lines 14 to 36 (\<open>constructor0\<close>) and export-users.js lines 48 to 71
  (\<open>constructor\<close>), in a fresh process: no request issued, nothing printed or written.
  The argument is \<open>options.dryRun\<close>, \<open>None\<close> when undefined.
\<close>

definition constructor0 :: "env \<Rightarrow> bool option \<Rightarrow> exn + state" where
  "constructor0 E optDryRun =
     (case TARGET_ORG E of
        None \<Rightarrow> Inl (Error ''TARGET_ORG environment variable is required. Please set it in your .env file.'')
      | Some t \<Rightarrow>
          if t = [] then Inl (Error ''TARGET_ORG environment variable is required. Please set it in your .env file.'')
          else Inr \<lparr>targetOrg = t,
                    sourceOrgs = (case SOURCE_ORGS E of None \<Rightarrow> [] | Some v \<Rightarrow> js_split (CHR '','') v),
                    dryRun = (case optDryRun of Some b \<Rightarrow> b | None \<Rightarrow> True),
                    stopOnFailure = False,
                    logFile = ''migration-log-'' @ (case js_split (CHR ''T'') (clock E 0) of d # _ \<Rightarrow> d | [] \<Rightarrow> ''undefined'') @ ''.json'',
                    results = emptyResults,
                    calls = [], ticks = 1, stderr = [], slept = 0, written = []\<rparr>)"

definition constructor :: "env \<Rightarrow> bool option \<Rightarrow> exn + state" where
  "constructor E optDryRun =
     (case constructor0 E optDryRun of
        Inl ex \<Rightarrow> Inl ex
      | Inr s \<Rightarrow> Inr (s\<lparr>stopOnFailure := True\<rparr>))"

section \<open>Vocabulary of the properties\<close>

subsection \<open>Sequences of repositories and outcomes\<close>

text \<open>
  The ordered sequence of repositories that a pass over the organizations \<open>orgs\<close>
  discovers when its first listing request is the \<open>c\<close>-th one: a failed listing
  contributes nothing, a successful one its repositories in the order returned.
\<close>

fun discovered :: "env \<Rightarrow> nat \<Rightarrow> string list \<Rightarrow> (string \<times> repo) list" where
  "discovered E c [] = []"
| "discovered E c (org # orgs) =
     (case reposResp E c of Inl _ \<Rightarrow> [] | Inr rs \<Rightarrow> map (Pair org) rs) @ discovered E (Suc c) orgs"

definition identity :: "string \<times> repo \<Rightarrow> string" where
  "identity p = fullName (fst p) (snd p)"

text \<open>
  The identities of the entries of a repository file that the loop of \<open>migrateFromFile\<close>
  hands to \<open>transferRepository\<close>: an entry without an owner is passed over, and a
  TypeError ends the loop.
\<close>

fun file_identities :: "repo list \<Rightarrow> string list" where
  "file_identities [] = []"
| "file_identities (r # rs) =
     (case orgMatch r of
        Inl _ \<Rightarrow> []
      | Inr None \<Rightarrow> file_identities rs
      | Inr (Some org) \<Rightarrow> fullName org r # file_identities rs)"

text \<open>The repositories a run of part_000 attempts, once validation has passed.\<close>

definition attempted :: "env \<Rightarrow> state \<Rightarrow> string list" where
  "attempted E s =
     (if existsSync E ''test-repos.json''
      then (case files E ''test-repos.json'' of Entries rs \<Rightarrow> file_identities rs | _ \<Rightarrow> [])
      else map identity (discovered E (list_calls s) (sourceOrgs s)))"

text \<open>The repository identities in each bucket.\<close>

definition successful_names :: "state \<Rightarrow> string list" where
  "successful_names s = map s_repo (successful (results s))"

definition failed_names :: "state \<Rightarrow> string list" where
  "failed_names s = map f_repo (failed (results s))"

definition skipped_names :: "state \<Rightarrow> string list" where
  "skipped_names s = map f_repo (skipped (results s))"

text \<open>The identities of all outcomes in the successful and failed buckets, as a multiset.\<close>

definition outcome_names :: "state \<Rightarrow> string multiset" where
  "outcome_names s = mset (successful_names s) + mset (failed_names s)"

definition outcome_count :: "state \<Rightarrow> nat" where
  "outcome_count s =
     length (successful (results s)) + length (failed (results s)) + length (skipped (results s))"

subsection \<open>Effects\<close>

text \<open>
  One outcome for the repository identity \<open>ident\<close> is appended between \<open>s\<close> and \<open>s'\<close>:
  either the successful or the failed bucket grows by one entry for \<open>ident\<close>, and the
  other two buckets are as before.
\<close>

definition records_one :: "string \<Rightarrow> state \<Rightarrow> state \<Rightarrow> bool" where
  "records_one ident s s' \<longleftrightarrow>
     skipped (results s') = skipped (results s) \<and>
     ((\<exists>e. s_repo e = ident \<and>
           successful (results s') = successful (results s) @ [e] \<and>
           failed (results s') = failed (results s)) \<or>
      (\<exists>e. f_repo e = ident \<and>
           failed (results s') = failed (results s) @ [e] \<and>
           successful (results s') = successful (results s)))"

text \<open>
  What a stretch of a dry run may do to the state \<open>s\<close>: it stays a dry run, no transfer
  request is added to the requests issued, the failed and skipped buckets are as
  before, and every outcome added to the successful bucket carries \<open>dryRun = true\<close>.
\<close>

definition dry_effect :: "state \<Rightarrow> state \<Rightarrow> bool" where
  "dry_effect s s' \<longleftrightarrow>
     dryRun s' \<and>
     filter is_PostTransfer (calls s') = filter is_PostTransfer (calls s) \<and>
     failed (results s') = failed (results s) \<and>
     skipped (results s') = skipped (results s) \<and>
     (\<exists>es. successful (results s') = successful (results s) @ es \<and>
           list_all (\<lambda>e. s_dryRun e = Some True) es)"

text \<open>
  What every operation except \<open>generateReport\<close> leaves as it is: the configuration, the
  skipped bucket, the summary and the files written.
\<close>

definition frame :: "state \<Rightarrow> state \<Rightarrow> bool" where
  "frame s s' \<longleftrightarrow>
     targetOrg s' = targetOrg s \<and> sourceOrgs s' = sourceOrgs s \<and> dryRun s' = dryRun s \<and>
     stopOnFailure s' = stopOnFailure s \<and> logFile s' = logFile s \<and>
     skipped (results s') = skipped (results s) \<and>
     summary (results s') = summary (results s) \<and>
     written s' = written s"

subsection \<open>The report\<close>

text \<open>The three buckets are pairwise disjoint by repository identity.\<close>

definition buckets_disjoint :: "state \<Rightarrow> bool" where
  "buckets_disjoint s \<longleftrightarrow>
     set (successful_names s) \<inter> set (failed_names s) = {} \<and>
     set (successful_names s) \<inter> set (skipped_names s) = {} \<and>
     set (failed_names s) \<inter> set (skipped_names s) = {}"

text \<open>The summary exists and its \<open>total\<close> is the sum of the sizes of the buckets.\<close>

definition total_is_sum :: "state \<Rightarrow> bool" where
  "total_is_sum s =
     (case summary (results s) of
        None \<Rightarrow> False
      | Some sm \<Rightarrow> sum_total sm = length (successful (results s)) + length (failed (results s)) +
                                  length (skipped (results s)))"

text \<open>
  The skipped bucket of a \<open>results\<close> object is empty and a summary, if there is one,
  counts no skipped outcome; for a state, this holds of \<open>this.results\<close> and of every
  report written.
\<close>

definition results_skipped_empty :: "results \<Rightarrow> bool" where
  "results_skipped_empty r \<longleftrightarrow>
     skipped r = [] \<and> (case summary r of None \<Rightarrow> True | Some sm \<Rightarrow> sum_skipped sm = 0)"

definition skipped_empty :: "state \<Rightarrow> bool" where
  "skipped_empty s \<longleftrightarrow>
     results_skipped_empty (results s) \<and> list_all (\<lambda>w. results_skipped_empty (snd w)) (written s)"

text \<open>\<open>this.results.summary.successRate\<close>, when there is a summary.\<close>

definition successRate :: "state \<Rightarrow> js_number option" where
  "successRate s = map_option sum_successRate (summary (results s))"

subsection \<open>Console lines of validation\<close>

definition permissionWarning :: "string \<Rightarrow> string" where
  "permissionWarning m = ''Could not verify permissions for target org: '' @ m"

definition insufficient :: "string \<Rightarrow> string" where
  "insufficient role = ''Insufficient permissions for target org. Need admin/owner, have: '' @ role"

subsection \<open>Concrete environments\<close>

text \<open>
  \<open>demoEnv\<close>: target \<open>T\<close>, sources \<open>A\<close> and \<open>B\<close>. The listing of \<open>A\<close> fails, that of \<open>B\<close>
  returns three repositories; the second transfer request fails; the credential is a
  plain member of \<open>T\<close>; there is no repository file.
\<close>

definition mkRepo :: "string \<Rightarrow> repo" where
  "mkRepo n = \<lparr>name = n, url = None, sshUrl = None\<rparr>"

definition demoEnv :: env where
  "demoEnv =
     \<lparr>TARGET_ORG = Some ''T'', SOURCE_ORGS = Some ''A,B'',
      userResp = (\<lambda>k. Inr ''alice''),
      orgResp = (\<lambda>k. Inr ()),
      membershipResp = (\<lambda>k. Inr ''member''),
      reposResp = (\<lambda>k. if k = 0 then Inl \<lparr>message = ''Not Found'', status = Some 404\<rparr>
                        else Inr [mkRepo ''r1'', mkRepo ''r2'', mkRepo ''r3'']),
      transferResp = (\<lambda>k. if k = 1 then Inl \<lparr>message = ''Validation Failed'', status = Some 422\<rparr>
                           else Inr 202),
      clock = (\<lambda>k. ''2024-05-06T07:08:09.000Z''),
      files = (\<lambda>p. Missing ''ENOENT: no such file or directory'')\<rparr>"

text \<open>
  The state the constructor of export-users.js builds in \<open>demoEnv\<close>, dry or live. The
  constructor of part_000 builds the same with \<open>stopOnFailure\<close> absent.
\<close>

definition demoState :: "bool \<Rightarrow> state" where
  "demoState dry =
     \<lparr>targetOrg = ''T'', sourceOrgs = [''A'', ''B''], dryRun = dry, stopOnFailure = True,
      logFile = ''migration-log-2024-05-06.json'', results = emptyResults,
      calls = [], ticks = 1, stderr = [], slept = 0, written = []\<rparr>"

text \<open>
  \<open>dupEnv\<close>: the source organization \<open>A\<close> is configured twice, its listing returns \<open>r1\<close>
  each time, the first transfer succeeds and every later one fails. \<open>dupState\<close> is the
  state the constructor of part_000 builds there for a live run.
\<close>

definition dupEnv :: env where
  "dupEnv =
     \<lparr>TARGET_ORG = Some ''T'', SOURCE_ORGS = Some ''A,A'',
      userResp = (\<lambda>k. Inr ''alice''),
      orgResp = (\<lambda>k. Inr ()),
      membershipResp = (\<lambda>k. Inr ''admin''),
      reposResp = (\<lambda>k. Inr [mkRepo ''r1'']),
      transferResp = (\<lambda>k. if k = 0 then Inr 202
                           else Inl \<lparr>message = ''Validation Failed'', status = Some 422\<rparr>),
      clock = (\<lambda>k. ''2024-05-06T07:08:09.000Z''),
      files = (\<lambda>p. Missing ''ENOENT: no such file or directory'')\<rparr>"

definition dupState :: state where
  "dupState =
     \<lparr>targetOrg = ''T'', sourceOrgs = [''A'', ''A''], dryRun = False, stopOnFailure = False,
      logFile = ''migration-log-2024-05-06.json'', results = emptyResults,
      calls = [], ticks = 1, stderr = [], slept = 0, written = []\<rparr>"

text \<open>
  \<open>fileEnv\<close>: as \<open>demoEnv\<close>, with a repository file of two entries, the first without
  an owner on \<open>github.com\<close>. \<open>authFailEnv\<close>: as \<open>demoEnv\<close>, with a credential that does
  not authenticate. \<open>forbiddenEnv\<close>: as \<open>demoEnv\<close>, with a membership request that fails.
\<close>

definition fileEnv :: env where
  "fileEnv = demoEnv
     \<lparr>files := (\<lambda>p. if p = ''test-repos.json''
                     then Entries
                       [\<lparr>name = ''orphan'', url = Some ''https://example.org/orphan'',
                         sshUrl = Some ''git@example.org:orphan.git''\<rparr>,
                        \<lparr>name = ''app'', url = Some ''https://github.com/senacor/app'',
                         sshUrl = Some ''git@github.com:senacor/app.git''\<rparr>]
                     else Missing ''ENOENT: no such file or directory'')\<rparr>"

definition authFailEnv :: env where
  "authFailEnv = demoEnv\<lparr>userResp := (\<lambda>k. Inl \<lparr>message = ''Bad credentials'', status = Some 401\<rparr>)\<rparr>"

definition forbiddenEnv :: env where
  "forbiddenEnv = demoEnv\<lparr>membershipResp := (\<lambda>k. Inl \<lparr>message = ''Forbidden'', status = Some 403\<rparr>)\<rparr>"

section \<open>Properties\<close>

subsection \<open>Dry runs\<close>

lemma transferRepository_dry:
  "dryRun s \<Longrightarrow> transferRepository E r org s =
     (Inr DryOk,
      push_successful
        \<lparr>s_repo = org @ ''/'' @ name r, s_target = targetOrg s @ ''/'' @ name r,
         s_dryRun = Some True, s_timestamp = clock E (ticks s), s_response = None\<rparr>
        (s\<lparr>ticks := Suc (ticks s)\<rparr>))"
  by (simp add: transferRepository_def now_def Let_def)

lemma transferRepository0_dry:
  "dryRun s \<Longrightarrow> transferRepository0 E r org s =
     (Inr DryOk,
      push_successful
        \<lparr>s_repo = org @ ''/'' @ name r, s_target = targetOrg s @ ''/'' @ name r,
         s_dryRun = Some True, s_timestamp = clock E (ticks s), s_response = None\<rparr>
        (s\<lparr>ticks := Suc (ticks s)\<rparr>))"
  by (simp add: transferRepository0_def now_def Let_def)

lemma dry_effect_refl: "dryRun s \<Longrightarrow> dry_effect s s"
  by (simp add: dry_effect_def)

lemma dry_effect_trans: "dry_effect s s1 \<Longrightarrow> dry_effect s1 s2 \<Longrightarrow> dry_effect s s2"
  by (auto simp: dry_effect_def)

lemma dry_effect_dryRun: "dry_effect s s' \<Longrightarrow> dryRun s'"
  by (simp add: dry_effect_def)

lemma dry_transferRepository: "dryRun s \<Longrightarrow> dry_effect s (snd (transferRepository E r org s))"
  by (simp add: transferRepository_dry dry_effect_def push_successful_def)

lemma dry_transferRepository0: "dryRun s \<Longrightarrow> dry_effect s (snd (transferRepository0 E r org s))"
  by (simp add: transferRepository0_dry dry_effect_def push_successful_def)

lemma dry_sleep: "dryRun s \<Longrightarrow> dry_effect s (sleep n s)"
  by (simp add: dry_effect_def sleep_def)

lemma dry_console_error: "dryRun s \<Longrightarrow> dry_effect s (console_error l s)"
  by (simp add: dry_effect_def console_error_def)

lemma dry_console_warn: "dryRun s \<Longrightarrow> dry_effect s (console_warn l s)"
  by (simp add: dry_effect_def console_warn_def)

lemma dry_then:
  "dry_effect s s1 \<Longrightarrow> (dryRun s1 \<Longrightarrow> dry_effect s1 s2) \<Longrightarrow> dry_effect s s2"
  by (meson dry_effect_trans dry_effect_dryRun)

lemma dry_listRepositories: "dryRun s \<Longrightarrow> dry_effect s (snd (listRepositories E org s))"
  by (simp add: listRepositories_def request_repos_def dry_effect_def console_error_def
      split: sum.splits)

lemma listRepositories_returns: "\<exists>rs. fst (listRepositories E org s) = Inr rs"
  by (simp add: listRepositories_def request_repos_def split: sum.splits)

lemma dry_transferEach:
  "dryRun s \<Longrightarrow>
   fst (transferEach E org rs s) = Inr () \<and> dry_effect s (snd (transferEach E org rs s))"
proof (induction rs arbitrary: s)
  case Nil
  then show ?case by (simp add: dry_effect_refl)
next
  case (Cons r rs)
  let ?s1 = "snd (transferRepository E r org s)"
  have "dry_effect s ?s1" using Cons.prems by (rule dry_transferRepository)
  then have d2: "dry_effect s (sleep 1000 ?s1)"
    by (rule dry_then) (rule dry_sleep)
  have eq: "transferEach E org (r # rs) s = transferEach E org rs (sleep 1000 ?s1)"
    using Cons.prems by (simp add: transferRepository_dry)
  from Cons.IH [of "sleep 1000 ?s1"] d2 show ?case
    unfolding eq by (meson dry_effect_trans dry_effect_dryRun)
qed

lemma dry_transferEach0:
  "dryRun s \<Longrightarrow>
   fst (transferEach0 E org rs s) = Inr () \<and> dry_effect s (snd (transferEach0 E org rs s))"
proof (induction rs arbitrary: s)
  case Nil
  then show ?case by (simp add: dry_effect_refl)
next
  case (Cons r rs)
  let ?s1 = "snd (transferRepository0 E r org s)"
  have "dry_effect s ?s1" using Cons.prems by (rule dry_transferRepository0)
  then have d2: "dry_effect s (sleep 1000 ?s1)"
    by (rule dry_then) (rule dry_sleep)
  have eq: "transferEach0 E org (r # rs) s = transferEach0 E org rs (sleep 1000 ?s1)"
    using Cons.prems by (simp add: transferRepository0_dry)
  from Cons.IH [of "sleep 1000 ?s1"] d2 show ?case
    unfolding eq by (meson dry_effect_trans dry_effect_dryRun)
qed

lemma dry_migrateFromOrganizations:
  "dryRun s \<Longrightarrow>
   fst (migrateFromOrganizations E orgs s) = Inr () \<and>
   dry_effect s (snd (migrateFromOrganizations E orgs s))"
proof (induction orgs arbitrary: s)
  case Nil
  then show ?case by (simp add: dry_effect_refl)
next
  case (Cons org orgs)
  obtain rs where l: "fst (listRepositories E org s) = Inr rs"
    using listRepositories_returns by blast
  let ?s1 = "snd (listRepositories E org s)"
  let ?s2 = "snd (transferEach E org rs ?s1)"
  have d1: "dry_effect s ?s1" using Cons.prems by (rule dry_listRepositories)
  have t: "fst (transferEach E org rs ?s1) = Inr ()" and d2: "dry_effect ?s1 ?s2"
    using dry_transferEach [of ?s1 E org rs] d1 by (simp_all add: dry_effect_dryRun)
  have d3: "dry_effect s ?s2" using d1 d2 by (rule dry_effect_trans)
  have eq: "migrateFromOrganizations E (org # orgs) s = migrateFromOrganizations E orgs ?s2"
    using l t by (simp add: split_beta)
  from Cons.IH [of ?s2] d3 show ?case
    unfolding eq by (meson dry_effect_trans dry_effect_dryRun)
qed

lemma dry_migrateFromOrganizations0:
  "dryRun s \<Longrightarrow>
   fst (migrateFromOrganizations0 E orgs s) = Inr () \<and>
   dry_effect s (snd (migrateFromOrganizations0 E orgs s))"
proof (induction orgs arbitrary: s)
  case Nil
  then show ?case by (simp add: dry_effect_refl)
next
  case (Cons org orgs)
  obtain rs where l: "fst (listRepositories E org s) = Inr rs"
    using listRepositories_returns by blast
  let ?s1 = "snd (listRepositories E org s)"
  let ?s2 = "snd (transferEach0 E org rs ?s1)"
  have d1: "dry_effect s ?s1" using Cons.prems by (rule dry_listRepositories)
  have t: "fst (transferEach0 E org rs ?s1) = Inr ()" and d2: "dry_effect ?s1 ?s2"
    using dry_transferEach0 [of ?s1 E org rs] d1 by (simp_all add: dry_effect_dryRun)
  have d3: "dry_effect s ?s2" using d1 d2 by (rule dry_effect_trans)
  have eq: "migrateFromOrganizations0 E (org # orgs) s = migrateFromOrganizations0 E orgs ?s2"
    using l t by (simp add: split_beta)
  from Cons.IH [of ?s2] d3 show ?case
    unfolding eq by (meson dry_effect_trans dry_effect_dryRun)
qed

lemma dry_checkPermissions: "dryRun s \<Longrightarrow> dry_effect s (snd (checkPermissions E s))"
  by (simp add: checkPermissions_def request_user_def request_membership_def dry_effect_def
      split: sum.splits)

lemma dry_validateSetup0: "dryRun s \<Longrightarrow> dry_effect s (snd (validateSetup0 E s))"
  by (simp add: validateSetup0_def checkPermissions_def request_user_def request_org_def
      request_membership_def console_warn_def dry_effect_def split: sum.splits)

lemma dry_validateSetup: "dryRun s \<Longrightarrow> dry_effect s (snd (validateSetup E s))"
  by (simp add: validateSetup_def checkPermissions_def request_user_def request_org_def
      request_membership_def dry_effect_def split: sum.splits)

lemma dry_generateReport: "dryRun s \<Longrightarrow> dry_effect s (generateReport E s)"
  by (simp add: generateReport_def now_def dry_effect_def Let_def)

lemma dry_migrateEntries: "dryRun s \<Longrightarrow> dry_effect s (snd (migrateEntries E rs s))"
proof (induction rs arbitrary: s)
  case Nil
  then show ?case by (simp add: dry_effect_refl)
next
  case (Cons r rs)
  show ?case
  proof (cases "orgMatch r")
    case (Inl ex)
    then show ?thesis using Cons.prems by (simp add: dry_effect_refl)
  next
    case (Inr m)
    show ?thesis
    proof (cases m)
      case None
      have "dry_effect s (console_warn (''Could not determine organization for '' @ name r) s)"
        using Cons.prems by (rule dry_console_warn)
      then show ?thesis using Inr None Cons.IH
        by (simp del: append.simps) (meson dry_effect_trans dry_effect_dryRun)
    next
      case (Some org)
      let ?s1 = "snd (transferRepository0 E r org s)"
      have "dry_effect s ?s1" using Cons.prems by (rule dry_transferRepository0)
      then have d2: "dry_effect s (sleep 1000 ?s1)"
        by (rule dry_then) (rule dry_sleep)
      have eq: "migrateEntries E (r # rs) s = migrateEntries E rs (sleep 1000 ?s1)"
        using Cons.prems Inr Some by (simp add: transferRepository0_dry)
      from Cons.IH [of "sleep 1000 ?s1"] d2 show ?thesis
        unfolding eq by (meson dry_effect_trans dry_effect_dryRun)
    qed
  qed
qed

lemma dry_migrateFromFile: "dryRun s \<Longrightarrow> dry_effect s (snd (migrateFromFile E p s))"
proof -
  assume d: "dryRun s"
  have m: "dry_effect s (snd (migrateEntries E rs s))" for rs
    using d by (rule dry_migrateEntries)
  have c: "dry_effect s (console_error l (snd (migrateEntries E rs s)))" for rs l
    using m by (rule dry_then) (rule dry_console_error)
  show ?thesis
    using d m c by (simp add: migrateFromFile_def dry_console_error split_beta split: disk_file.splits sum.splits)
qed

lemma dry_run: "dryRun s \<Longrightarrow> dry_effect s (snd (run E s))"
proof -
  assume d: "dryRun s"
  let ?s1 = "snd (validateSetup E s)"
  have d1: "dry_effect s ?s1" using d by (rule dry_validateSetup)
  have d1': "dry_effect s (console_error l ?s1)" for l
    using d1 by (rule dry_then) (rule dry_console_error)
  have d1'': "dry_effect s (generateReport E (console_error l ?s1))" for l
    using d1' by (rule dry_then) (rule dry_generateReport)
  let ?s2 = "snd (migrateFromOrganizations E (sourceOrgs ?s1) ?s1)"
  have m: "fst (migrateFromOrganizations E (sourceOrgs ?s1) ?s1) = Inr ()"
    and d2: "dry_effect ?s1 ?s2"
    using dry_migrateFromOrganizations [of ?s1 E "sourceOrgs ?s1"] d1
    by (simp_all add: dry_effect_dryRun)
  have d3: "dry_effect s ?s2" using d1 d2 by (rule dry_effect_trans)
  then have d4: "dry_effect s (generateReport E ?s2)"
    by (rule dry_then) (rule dry_generateReport)
  show ?thesis
    using d1'' d4 m by (simp add: run_def run_try_def split_beta split: sum.splits)
qed

lemma dry_run1: "dryRun s \<Longrightarrow> dry_effect s (snd (run1 E s))"
proof -
  assume d: "dryRun s"
  have d1: "dry_effect s (console_error l s)" for l
    using d by (rule dry_console_error)
  have "fst (migrateFromOrganizations E (sourceOrgs s) s) = Inr ()"
    and "dry_effect s (snd (migrateFromOrganizations E (sourceOrgs s) s))"
    using dry_migrateFromOrganizations [of s E "sourceOrgs s"] d by simp_all
  then show ?thesis
    using d1 by (simp add: run1_def run1_try_def split_beta split: sum.splits)
qed

lemma dry_run0: "dryRun s \<Longrightarrow> dry_effect s (snd (run0 E s))"
proof -
  assume d: "dryRun s"
  let ?s1 = "snd (validateSetup0 E s)"
  have d1: "dry_effect s ?s1" using d by (rule dry_validateSetup0)
  have d1': "dry_effect s (console_error l ?s1)" for l
    using d1 by (rule dry_then) (rule dry_console_error)
  let ?s2 = "snd (migrateFromOrganizations0 E (sourceOrgs ?s1) ?s1)"
  let ?s3 = "snd (migrateFromFile E ''test-repos.json'' ?s1)"
  have d2: "dry_effect s ?s2"
    using d1 dry_migrateFromOrganizations0 [of ?s1 E "sourceOrgs ?s1"]
    by (meson dry_effect_trans dry_effect_dryRun)
  have d3: "dry_effect s ?s3"
    using d1 by (rule dry_then) (rule dry_migrateFromFile)
  have g2: "dry_effect s (generateReport E ?s2)"
    using d2 by (rule dry_then) (rule dry_generateReport)
  have g3: "dry_effect s (generateReport E ?s3)"
    using d3 by (rule dry_then) (rule dry_generateReport)
  have e2: "dry_effect s (console_error l ?s2)" for l
    using d2 by (rule dry_then) (rule dry_console_error)
  have e3: "dry_effect s (console_error l ?s3)" for l
    using d3 by (rule dry_then) (rule dry_console_error)
  show ?thesis
    using d1' g2 g3 e2 e3 by (simp add: run0_def run0_try_def split_beta split: sum.splits)
qed

lemma dry_effect_transfer_calls: "dry_effect s s' \<Longrightarrow> transfer_calls s' = transfer_calls s"
  by (simp add: dry_effect_def transfer_calls_def)

text \<open>
  C1. In a dry run, \<open>transferRepository\<close> (in each variant) returns the dry success
  object, appends to the successful bucket one outcome carrying \<open>dryRun = true\<close>, leaves
  the other buckets alone and issues no request at all. Over a whole \<open>run\<close> of each
  variant, every outcome added is a successful one carrying \<open>dryRun = true\<close> and the
  number of transfer requests issued does not change: it is zero for a run that starts
  with none.
\<close>

theorem dry_run_records_success_without_transfer:
  assumes "dryRun s"
  shows "fst (transferRepository E r org s) = Inr DryOk \<and>
         successful (results (snd (transferRepository E r org s))) =
           successful (results s) @
             [\<lparr>s_repo = fullName org r, s_target = targetOrg s @ ''/'' @ name r,
               s_dryRun = Some True, s_timestamp = clock E (ticks s), s_response = None\<rparr>] \<and>
         failed (results (snd (transferRepository E r org s))) = failed (results s) \<and>
         skipped (results (snd (transferRepository E r org s))) = skipped (results s) \<and>
         calls (snd (transferRepository E r org s)) = calls s \<and>
         transferRepository0 E r org s = transferRepository E r org s \<and>
         dry_effect s (snd (run E s)) \<and> transfer_calls (snd (run E s)) = transfer_calls s \<and>
         dry_effect s (snd (run0 E s)) \<and> transfer_calls (snd (run0 E s)) = transfer_calls s \<and>
         dry_effect s (snd (run1 E s)) \<and> transfer_calls (snd (run1 E s)) = transfer_calls s"
proof -
  have one: "fst (transferRepository E r org s) = Inr DryOk \<and>
         successful (results (snd (transferRepository E r org s))) =
           successful (results s) @
             [\<lparr>s_repo = fullName org r, s_target = targetOrg s @ ''/'' @ name r,
               s_dryRun = Some True, s_timestamp = clock E (ticks s), s_response = None\<rparr>] \<and>
         failed (results (snd (transferRepository E r org s))) = failed (results s) \<and>
         skipped (results (snd (transferRepository E r org s))) = skipped (results s) \<and>
         calls (snd (transferRepository E r org s)) = calls s"
    using assms by (simp add: transferRepository_dry push_successful_def fullName_def)
  have same: "transferRepository0 E r org s = transferRepository E r org s"
    using assms by (simp add: transferRepository_dry transferRepository0_dry)
  note runs = dry_run [OF assms, of E] dry_run0 [OF assms, of E] dry_run1 [OF assms, of E]
  from one same runs runs [THEN dry_effect_transfer_calls] show ?thesis
    by blast
qed

theorem dry_run_records_success_without_transfer_witness:
  "dryRun (demoState True) \<and>
   fst (transferRepository demoEnv (mkRepo ''r1'') ''B'' (demoState True)) = Inr DryOk \<and>
   successful (results (snd (transferRepository demoEnv (mkRepo ''r1'') ''B'' (demoState True)))) =
     [\<lparr>s_repo = ''B/r1'', s_target = ''T/r1'', s_dryRun = Some True,
       s_timestamp = ''2024-05-06T07:08:09.000Z'', s_response = None\<rparr>] \<and>
   transfer_calls (snd (run demoEnv (demoState True))) = 0"
  using dry_run_records_success_without_transfer [of "demoState True" demoEnv "mkRepo ''r1''" "''B''"]
  by (simp add: demoState_def demoEnv_def mkRepo_def emptyResults_def fullName_def
      transfer_calls_def)

subsection \<open>One outcome per attempt\<close>

lemma records_one_transferRepository:
  "records_one (fullName org r) s (snd (transferRepository E r org s))"
  by (simp add: records_one_def transferRepository_def fullName_def Let_def now_def
      push_successful_def push_failed_def console_error_def request_transfer_def
      split: sum.splits)

lemma records_one_transferRepository0:
  "records_one (fullName org r) s (snd (transferRepository0 E r org s))"
  by (simp add: records_one_def transferRepository0_def fullName_def Let_def now_def
      push_successful_def push_failed_def console_error_def request_transfer_def
      split: sum.splits)

lemma records_one_count: "records_one ident s s' \<Longrightarrow> outcome_count s' = outcome_count s + 1"
  by (auto simp: records_one_def outcome_count_def)

text \<open>
  C7. Every invocation of \<open>transferRepository\<close>, in each variant and whatever the mode
  and the remote's answer (the exception of the stop-on-failure variant included),
  appends exactly one outcome for the repository: one bucket grows by one entry for
  its identity, the others do not change, and the number of outcomes grows by one.
\<close>

theorem exactly_one_outcome_per_attempt:
  "records_one (fullName org r) s (snd (transferRepository E r org s)) \<and>
   outcome_count (snd (transferRepository E r org s)) = outcome_count s + 1 \<and>
   records_one (fullName org r) s (snd (transferRepository0 E r org s)) \<and>
   outcome_count (snd (transferRepository0 E r org s)) = outcome_count s + 1"
  using records_one_transferRepository [of org r s E]
    records_one_transferRepository0 [of org r s E]
  by (simp add: records_one_count)

subsection \<open>Live runs: stop at the first failure\<close>

lemma transferRepository_live_ok:
  "\<not> dryRun s \<Longrightarrow> transferResp E (transfer_calls s) = Inr st \<Longrightarrow>
   transferRepository E r org s =
     (Inr (LiveOk st),
      push_successful
       \<lparr>s_repo = fullName org r, s_target = targetOrg s @ ''/'' @ name r,
        s_dryRun = None, s_timestamp = clock E (ticks s), s_response = Some st\<rparr>
       (s\<lparr>calls := calls s @ [PostTransfer org (name r) (targetOrg s)], ticks := Suc (ticks s)\<rparr>))"
  by (simp add: transferRepository_def request_transfer_def now_def Let_def fullName_def)

lemma transferRepository_live_fail:
  "\<not> dryRun s \<Longrightarrow> stopOnFailure s \<Longrightarrow> transferResp E (transfer_calls s) = Inl err \<Longrightarrow>
   transferRepository E r org s =
     (Inl (Error (''Migration failed for '' @ fullName org r @ '': '' @ message err)),
      push_failed
       \<lparr>f_repo = fullName org r, f_error = message err, f_status = status err,
        f_timestamp = clock E (ticks s)\<rparr>
       (s\<lparr>calls := calls s @ [PostTransfer org (name r) (targetOrg s)],
          stderr := stderr s @ [fullName org r @ '': '' @ message err],
          ticks := Suc (ticks s)\<rparr>))"
  by (simp add: transferRepository_def request_transfer_def now_def Let_def fullName_def
      console_error_def push_failed_def)

lemma transferEach_all_ok:
  assumes "\<not> dryRun s"
    and "\<forall>k<length rs. \<exists>st. transferResp E (transfer_calls s + k) = Inr st"
  shows "fst (transferEach E org rs s) = Inr () \<and>
         successful_names (snd (transferEach E org rs s)) =
           successful_names s @ map (fullName org) rs \<and>
         failed (results (snd (transferEach E org rs s))) = failed (results s) \<and>
         skipped (results (snd (transferEach E org rs s))) = skipped (results s) \<and>
         transfer_calls (snd (transferEach E org rs s)) = transfer_calls s + length rs \<and>
         list_calls (snd (transferEach E org rs s)) = list_calls s \<and>
         dryRun (snd (transferEach E org rs s)) = dryRun s \<and>
         stopOnFailure (snd (transferEach E org rs s)) = stopOnFailure s"
  using assms
proof (induction rs arbitrary: s)
  case Nil
  then show ?case by simp
next
  case (Cons r rs)
  from Cons.prems(2) obtain st where st: "transferResp E (transfer_calls s) = Inr st"
    by fastforce
  define s1 where "s1 = sleep 1000 (snd (transferRepository E r org s))"
  have eq: "transferEach E org (r # rs) s = transferEach E org rs s1"
    using Cons.prems(1) st by (simp add: transferRepository_live_ok s1_def push_successful_def)
  have f: "\<not> dryRun s1" "transfer_calls s1 = Suc (transfer_calls s)"
    "successful_names s1 = successful_names s @ [fullName org r]"
    "failed (results s1) = failed (results s)" "skipped (results s1) = skipped (results s)"
    "list_calls s1 = list_calls s" "stopOnFailure s1 = stopOnFailure s"
    using Cons.prems(1) st
    by (simp_all add: s1_def transferRepository_live_ok push_successful_def sleep_def
        transfer_calls_def list_calls_def successful_names_def)
  have "\<forall>k<length rs. \<exists>st. transferResp E (transfer_calls s1 + k) = Inr st"
  proof (intro allI impI)
    fix k assume "k < length rs"
    then have "Suc k < length (r # rs)" by simp
    with Cons.prems(2) have "\<exists>st. transferResp E (transfer_calls s + Suc k) = Inr st" by blast
    then show "\<exists>st. transferResp E (transfer_calls s1 + k) = Inr st" by (simp add: f)
  qed
  from Cons.IH [OF f(1) this] Cons.prems(1) show ?case
    unfolding eq by (simp add: f)
qed

lemma transferEach_fail:
  assumes "\<not> dryRun s" and "stopOnFailure s" and "j < length rs"
    and "\<forall>k<j. \<exists>st. transferResp E (transfer_calls s + k) = Inr st"
    and "transferResp E (transfer_calls s + j) = Inl err"
  shows "fst (transferEach E org rs s) =
           Inl (Error (''Migration failed for '' @ fullName org (rs ! j) @ '': '' @ message err)) \<and>
         successful_names (snd (transferEach E org rs s)) =
           successful_names s @ map (fullName org) (take j rs) \<and>
         failed_names (snd (transferEach E org rs s)) = failed_names s @ [fullName org (rs ! j)] \<and>
         skipped (results (snd (transferEach E org rs s))) = skipped (results s) \<and>
         transfer_calls (snd (transferEach E org rs s)) = transfer_calls s + j + 1"
  using assms
proof (induction rs arbitrary: s j)
  case Nil
  then show ?case by simp
next
  case (Cons r rs)
  show ?case
  proof (cases j)
    case 0
    with Cons.prems show ?thesis
      by (simp add: transferRepository_live_fail push_failed_def successful_names_def
          failed_names_def transfer_calls_def)
  next
    case (Suc j')
    with Cons.prems(4) obtain st where st: "transferResp E (transfer_calls s) = Inr st"
      by fastforce
    define s1 where "s1 = sleep 1000 (snd (transferRepository E r org s))"
    have eq: "transferEach E org (r # rs) s = transferEach E org rs s1"
      using Cons.prems(1) st by (simp add: transferRepository_live_ok s1_def push_successful_def)
    have f: "\<not> dryRun s1" "transfer_calls s1 = Suc (transfer_calls s)"
      "successful_names s1 = successful_names s @ [fullName org r]"
      "failed_names s1 = failed_names s" "skipped (results s1) = skipped (results s)"
      "stopOnFailure s1"
      using Cons.prems(1,2) st
      by (simp_all add: s1_def transferRepository_live_ok push_successful_def sleep_def
          transfer_calls_def successful_names_def failed_names_def)
    have oks: "\<forall>k<j'. \<exists>st. transferResp E (transfer_calls s1 + k) = Inr st"
    proof (intro allI impI)
      fix k assume "k < j'"
      then have "Suc k < j" using Suc by simp
      with Cons.prems(4) have "\<exists>st. transferResp E (transfer_calls s + Suc k) = Inr st" by blast
      then show "\<exists>st. transferResp E (transfer_calls s1 + k) = Inr st" by (simp add: f)
    qed
    have fl: "transferResp E (transfer_calls s1 + j') = Inl err"
      using Cons.prems(5) Suc by (simp add: f)
    have lt: "j' < length rs" using Cons.prems(3) Suc by simp
    from Cons.IH [OF f(1) f(6) lt oks fl] show ?thesis
      unfolding eq by (simp add: f Suc)
  qed
qed


lemma listRepositories_effect:
  "fst (listRepositories E org s) =
     Inr (case reposResp E (list_calls s) of Inl _ \<Rightarrow> [] | Inr rs \<Rightarrow> rs) \<and>
   list_calls (snd (listRepositories E org s)) = Suc (list_calls s) \<and>
   transfer_calls (snd (listRepositories E org s)) = transfer_calls s \<and>
   results (snd (listRepositories E org s)) = results s \<and>
   dryRun (snd (listRepositories E org s)) = dryRun s \<and>
   stopOnFailure (snd (listRepositories E org s)) = stopOnFailure s"
  by (simp add: listRepositories_def request_repos_def console_error_def list_calls_def
      transfer_calls_def split: sum.splits)

lemma identity_Pair: "identity (org, r) = fullName org r"
  by (simp add: identity_def)

lemma names_results_cong:
  "results s1 = results s \<Longrightarrow>
   successful_names s1 = successful_names s \<and> failed_names s1 = failed_names s"
  by (simp add: successful_names_def failed_names_def)

lemma migrateFromOrganizations_fail:
  assumes "\<not> dryRun s" and "stopOnFailure s"
    and "j < length (discovered E (list_calls s) orgs)"
    and "\<forall>k<j. \<exists>st. transferResp E (transfer_calls s + k) = Inr st"
    and "transferResp E (transfer_calls s + j) = Inl err"
  shows "fst (migrateFromOrganizations E orgs s) =
           Inl (Error (''Migration failed for '' @ identity (discovered E (list_calls s) orgs ! j)
                       @ '': '' @ message err)) \<and>
         successful_names (snd (migrateFromOrganizations E orgs s)) =
           successful_names s @ map identity (take j (discovered E (list_calls s) orgs)) \<and>
         failed_names (snd (migrateFromOrganizations E orgs s)) =
           failed_names s @ [identity (discovered E (list_calls s) orgs ! j)] \<and>
         skipped (results (snd (migrateFromOrganizations E orgs s))) = skipped (results s) \<and>
         transfer_calls (snd (migrateFromOrganizations E orgs s)) = transfer_calls s + j + 1"
  using assms
proof (induction orgs arbitrary: s j)
  case Nil
  then show ?case by simp
next
  case (Cons org orgs)
  define rs where "rs = (case reposResp E (list_calls s) of Inl _ \<Rightarrow> [] | Inr rs \<Rightarrow> rs)"
  define s1 where "s1 = snd (listRepositories E org s)"
  define ds where "ds = discovered E (Suc (list_calls s)) orgs"
  have l: "fst (listRepositories E org s) = Inr rs" "list_calls s1 = Suc (list_calls s)"
    "transfer_calls s1 = transfer_calls s" "results s1 = results s"
    "\<not> dryRun s1" "stopOnFailure s1"
    using listRepositories_effect [of E org s] Cons.prems(1,2) by (simp_all add: rs_def s1_def)
  have n: "successful_names s1 = successful_names s" "failed_names s1 = failed_names s"
    using names_results_cong [OF l(4)] by simp_all
  have d: "discovered E (list_calls s) (org # orgs) = map (Pair org) rs @ ds"
    by (simp add: rs_def ds_def split: sum.splits)
  show ?case
  proof (cases "j < length rs")
    case True
    have oks: "\<forall>k<j. \<exists>st. transferResp E (transfer_calls s1 + k) = Inr st"
      using Cons.prems(4) by (simp add: l)
    have fl: "transferResp E (transfer_calls s1 + j) = Inl err"
      using Cons.prems(5) by (simp add: l)
    note te = transferEach_fail [OF l(5) l(6) True oks fl, of org]
    have eq: "migrateFromOrganizations E (org # orgs) s = transferEach E org rs s1"
      using l(1) te by (simp add: split_beta s1_def prod_eq_iff)
    show ?thesis
      unfolding eq d using te True
      by (simp add: l n nth_append take_map identity_Pair)
  next
    case False
    then have ge: "length rs \<le> j" by simp
    have oks: "\<forall>k<length rs. \<exists>st. transferResp E (transfer_calls s1 + k) = Inr st"
      using Cons.prems(4) ge by (simp add: l)
    note te = transferEach_all_ok [OF l(5) oks, of org]
    define s2 where "s2 = snd (transferEach E org rs s1)"
    have eq: "migrateFromOrganizations E (org # orgs) s = migrateFromOrganizations E orgs s2"
      using l(1) te by (simp add: split_beta s1_def s2_def)
    have f2: "\<not> dryRun s2" "stopOnFailure s2" "list_calls s2 = Suc (list_calls s)"
      "transfer_calls s2 = transfer_calls s + length rs"
      "successful_names s2 = successful_names s @ map (fullName org) rs"
      "failed_names s2 = failed_names s" "skipped (results s2) = skipped (results s)"
      using te l n by (simp_all add: s2_def failed_names_def)
    have lt: "j - length rs < length (discovered E (list_calls s2) orgs)"
      using Cons.prems(3) ge unfolding d by (simp add: f2 ds_def)
    have oks2: "\<forall>k<j - length rs. \<exists>st. transferResp E (transfer_calls s2 + k) = Inr st"
    proof (intro allI impI)
      fix k assume "k < j - length rs"
      then have "length rs + k < j" by simp
      with Cons.prems(4) have "\<exists>st. transferResp E (transfer_calls s + (length rs + k)) = Inr st"
        by blast
      then show "\<exists>st. transferResp E (transfer_calls s2 + k) = Inr st"
        by (simp add: f2 add.assoc)
    qed
    have fl2: "transferResp E (transfer_calls s2 + (j - length rs)) = Inl err"
      using Cons.prems(5) ge by (simp add: f2)
    from Cons.IH [OF f2(1) f2(2) lt oks2 fl2] show ?thesis
      unfolding eq d using ge
      by (simp add: f2 ds_def nth_append take_map identity_Pair)
  qed
qed


lemma outcome_count_names:
  "outcome_count s =
     length (successful_names s) + length (failed_names s) + length (skipped (results s))"
  by (simp add: outcome_count_def successful_names_def failed_names_def)

lemma run1_of_failure:
  "fst (migrateFromOrganizations E (sourceOrgs s) s) = Inl ex \<Longrightarrow> sourceOrgs s \<noteq> [] \<Longrightarrow>
   fst (run1 E s) = Exit 1 \<and>
   results (snd (run1 E s)) = results (snd (migrateFromOrganizations E (sourceOrgs s) s))"
  by (simp add: run1_def run1_try_def split_beta console_error_def)

text \<open>
  C2. A live run with stop-on-failure over the organizations \<open>orgs\<close>, whose discovered
  sequence of repositories has at least \<open>N\<close> elements, where the first \<open>N - 1\<close> transfer
  requests succeed and the \<open>N\<close>-th fails: \<open>migrateFromOrganizations\<close> raises, the
  successful bucket has grown by the first \<open>N - 1\<close> repositories in order, the failed
  bucket by the \<open>N\<close>-th, nothing else is recorded (\<open>N\<close> outcomes and \<open>N\<close> transfer requests
  in all, none for a later repository of this or a later organization), and \<open>run\<close> of
  migrate-repos.js exits with status 1.
\<close>

theorem fail_fast_stops_at_first_failure:
  assumes "\<not> dryRun s" and "stopOnFailure s"
    and "0 < N" and "N \<le> length (discovered E (list_calls s) orgs)"
    and "\<forall>k<N - 1. \<exists>st. transferResp E (transfer_calls s + k) = Inr st"
    and "transferResp E (transfer_calls s + (N - 1)) = Inl err"
  shows "fst (migrateFromOrganizations E orgs s) =
           Inl (Error (''Migration failed for '' @
                       identity (discovered E (list_calls s) orgs ! (N - 1)) @ '': '' @ message err)) \<and>
         successful_names (snd (migrateFromOrganizations E orgs s)) =
           successful_names s @ map identity (take (N - 1) (discovered E (list_calls s) orgs)) \<and>
         failed_names (snd (migrateFromOrganizations E orgs s)) =
           failed_names s @ [identity (discovered E (list_calls s) orgs ! (N - 1))] \<and>
         skipped (results (snd (migrateFromOrganizations E orgs s))) = skipped (results s) \<and>
         outcome_count (snd (migrateFromOrganizations E orgs s)) = outcome_count s + N \<and>
         transfer_calls (snd (migrateFromOrganizations E orgs s)) = transfer_calls s + N \<and>
         (orgs = sourceOrgs s \<longrightarrow>
            fst (run1 E s) = Exit 1 \<and>
            results (snd (run1 E s)) = results (snd (migrateFromOrganizations E orgs s)))"
proof -
  have lt: "N - 1 < length (discovered E (list_calls s) orgs)"
    using assms(3,4) by simp
  note m = migrateFromOrganizations_fail [OF assms(1) assms(2) lt assms(5) assms(6)]
  have len: "length (take (N - 1) (discovered E (list_calls s) orgs)) = N - 1"
    using lt by simp
  have cnt: "outcome_count (snd (migrateFromOrganizations E orgs s)) = outcome_count s + N"
    using m assms(3) len by (simp add: outcome_count_names)
  have ne: "orgs \<noteq> []" using lt by auto
  have r: "orgs = sourceOrgs s \<longrightarrow>
            fst (run1 E s) = Exit 1 \<and>
            results (snd (run1 E s)) = results (snd (migrateFromOrganizations E orgs s))"
    using m ne run1_of_failure [of E s] by auto
  from m cnt r assms(3) show ?thesis by simp
qed

theorem fail_fast_stops_at_first_failure_witness:
  "\<not> dryRun (demoState False) \<and> stopOnFailure (demoState False) \<and> (0::nat) < 2 \<and>
   2 \<le> length (discovered demoEnv (list_calls (demoState False)) [''A'', ''B'']) \<and>
   transferResp demoEnv (transfer_calls (demoState False) + 0) = Inr 202 \<and>
   transferResp demoEnv (transfer_calls (demoState False) + (2 - 1)) =
     Inl \<lparr>message = ''Validation Failed'', status = Some 422\<rparr> \<and>
   fst (migrateFromOrganizations demoEnv [''A'', ''B''] (demoState False)) =
     Inl (Error ''Migration failed for B/r2: Validation Failed'') \<and>
   successful_names (snd (migrateFromOrganizations demoEnv [''A'', ''B''] (demoState False))) = [''B/r1''] \<and>
   failed_names (snd (migrateFromOrganizations demoEnv [''A'', ''B''] (demoState False))) = [''B/r2''] \<and>
   outcome_count (snd (migrateFromOrganizations demoEnv [''A'', ''B''] (demoState False))) = 2 \<and>
   fst (run1 demoEnv (demoState False)) = Exit 1"
proof -
  have pre: "\<not> dryRun (demoState False)" "stopOnFailure (demoState False)" "(0::nat) < 2"
    "2 \<le> length (discovered demoEnv (list_calls (demoState False)) [''A'', ''B''])"
    "\<forall>k<2 - 1. \<exists>st. transferResp demoEnv (transfer_calls (demoState False) + k) = Inr st"
    "transferResp demoEnv (transfer_calls (demoState False) + (2 - 1)) =
       Inl \<lparr>message = ''Validation Failed'', status = Some 422\<rparr>"
    by (simp_all add: demoState_def demoEnv_def list_calls_def transfer_calls_def)
  have ds: "discovered demoEnv (list_calls (demoState False)) [''A'', ''B''] =
      [(''B'', mkRepo ''r1''), (''B'', mkRepo ''r2''), (''B'', mkRepo ''r3'')]"
    by (simp add: demoState_def demoEnv_def list_calls_def)
  have st: "successful_names (demoState False) = []" "failed_names (demoState False) = []"
    "outcome_count (demoState False) = 0" "sourceOrgs (demoState False) = [''A'', ''B'']"
    by (simp_all add: demoState_def successful_names_def failed_names_def outcome_count_def
        emptyResults_def)
  have first: "transferResp demoEnv (transfer_calls (demoState False) + 0) = Inr 202"
    by (simp add: demoState_def demoEnv_def transfer_calls_def)
  from fail_fast_stops_at_first_failure [OF pre] pre(1,2,4,6) first show ?thesis
    unfolding ds st by (simp add: identity_def fullName_def mkRepo_def)
qed

subsection \<open>Listing failures\<close>

lemma records_one_names:
  "records_one ident s s' \<Longrightarrow> outcome_names s' = outcome_names s + {#ident#}"
  by (auto simp: records_one_def outcome_names_def successful_names_def failed_names_def)

lemma transferRepository0_returns: "\<exists>res. fst (transferRepository0 E r org s) = Inr res"
  by (simp add: transferRepository0_def Let_def split_beta split: sum.splits)

lemma transferRepository0_list_calls:
  "list_calls (snd (transferRepository0 E r org s)) = list_calls s"
  by (simp add: transferRepository0_def Let_def now_def push_successful_def push_failed_def
      console_error_def request_transfer_def list_calls_def split: sum.splits)

lemma sleep_frame:
  "outcome_names (sleep n s) = outcome_names s" "list_calls (sleep n s) = list_calls s"
  "skipped (results (sleep n s)) = skipped (results s)"
  by (simp_all add: sleep_def outcome_names_def successful_names_def failed_names_def
      list_calls_def)

lemma transferEach0_effect:
  "fst (transferEach0 E org rs s) = Inr () \<and>
   outcome_names (snd (transferEach0 E org rs s)) = outcome_names s + mset (map (fullName org) rs) \<and>
   skipped (results (snd (transferEach0 E org rs s))) = skipped (results s) \<and>
   list_calls (snd (transferEach0 E org rs s)) = list_calls s"
proof (induction rs arbitrary: s)
  case Nil
  show ?case by simp
next
  case (Cons r rs)
  define s1 where "s1 = sleep 1000 (snd (transferRepository0 E r org s))"
  obtain res where res: "fst (transferRepository0 E r org s) = Inr res"
    using transferRepository0_returns by blast
  have eq: "transferEach0 E org (r # rs) s = transferEach0 E org rs s1"
    using res by (simp add: split_beta s1_def)
  have ro: "records_one (fullName org r) s (snd (transferRepository0 E r org s))"
    by (rule records_one_transferRepository0)
  have f: "outcome_names s1 = outcome_names s + {#fullName org r#}"
    "list_calls s1 = list_calls s" "skipped (results s1) = skipped (results s)"
    using records_one_names [OF ro] ro
    by (simp_all add: s1_def sleep_frame transferRepository0_list_calls records_one_def)
  from Cons.IH [of s1] show ?case
    unfolding eq by (simp add: f)
qed

lemma migrateFromOrganizations0_effect:
  "fst (migrateFromOrganizations0 E orgs s) = Inr () \<and>
   outcome_names (snd (migrateFromOrganizations0 E orgs s)) =
     outcome_names s + mset (map identity (discovered E (list_calls s) orgs)) \<and>
   skipped (results (snd (migrateFromOrganizations0 E orgs s))) = skipped (results s)"
proof (induction orgs arbitrary: s)
  case Nil
  show ?case by simp
next
  case (Cons org orgs)
  define rs where "rs = (case reposResp E (list_calls s) of Inl _ \<Rightarrow> [] | Inr rs \<Rightarrow> rs)"
  define s1 where "s1 = snd (listRepositories E org s)"
  define s2 where "s2 = snd (transferEach0 E org rs s1)"
  have l: "fst (listRepositories E org s) = Inr rs" "list_calls s1 = Suc (list_calls s)"
    "results s1 = results s"
    using listRepositories_effect [of E org s] by (simp_all add: rs_def s1_def)
  have n1: "outcome_names s1 = outcome_names s"
    using names_results_cong [OF l(3)] by (simp add: outcome_names_def)
  note te = transferEach0_effect [of E org rs s1]
  have eq: "migrateFromOrganizations0 E (org # orgs) s = migrateFromOrganizations0 E orgs s2"
    using l(1) te by (simp add: split_beta s1_def s2_def)
  have d: "discovered E (list_calls s) (org # orgs) =
             map (Pair org) rs @ discovered E (Suc (list_calls s)) orgs"
    by (simp add: rs_def split: sum.splits)
  have f2: "list_calls s2 = Suc (list_calls s)"
    "outcome_names s2 = outcome_names s + mset (map (fullName org) rs)"
    "skipped (results s2) = skipped (results s)"
    using te l n1 by (simp_all add: s2_def)
  have idm: "map identity (map (Pair org) rs) = map (fullName org) rs"
    by (simp add: identity_Pair)
  from Cons.IH [of s2] show ?case
    unfolding eq d by (simp add: f2 idm [symmetric] del: map_map)
qed

text \<open>
  C4. \<open>listRepositories\<close> never raises; when the listing request fails it returns the
  empty sequence. \<open>migrateFromOrganizations\<close> of part_000 therefore always returns
  normally, and the outcomes it adds are exactly one for each repository of the
  discovered sequence: nothing for an organization whose listing failed, and every
  repository of every organization whose listing succeeded, whatever failed before.
\<close>

theorem listing_failure_degrades_to_empty:
  "(\<exists>rs. fst (listRepositories E org s) = Inr rs) \<and>
   (reposResp E (list_calls s) = Inl err \<longrightarrow> fst (listRepositories E org s) = Inr []) \<and>
   (reposResp E (list_calls s) = Inr rs' \<longrightarrow> fst (listRepositories E org s) = Inr rs') \<and>
   fst (migrateFromOrganizations0 E orgs s) = Inr () \<and>
   outcome_names (snd (migrateFromOrganizations0 E orgs s)) =
     outcome_names s + mset (map identity (discovered E (list_calls s) orgs)) \<and>
   outcome_count (snd (migrateFromOrganizations0 E orgs s)) =
     outcome_count s + length (discovered E (list_calls s) orgs)"
proof -
  note m = migrateFromOrganizations0_effect [of E orgs s]
  have "size (outcome_names (snd (migrateFromOrganizations0 E orgs s))) =
        size (outcome_names s) + length (discovered E (list_calls s) orgs)"
    using m by simp
  then have "outcome_count (snd (migrateFromOrganizations0 E orgs s)) =
     outcome_count s + length (discovered E (list_calls s) orgs)"
    using m by (simp add: outcome_count_names outcome_names_def)
  with m listRepositories_effect [of E org s] show ?thesis
    by simp
qed

theorem listing_failure_degrades_to_empty_witness:
  "reposResp demoEnv (list_calls (demoState False)) = Inl \<lparr>message = ''Not Found'', status = Some 404\<rparr> \<and>
   fst (listRepositories demoEnv ''A'' (demoState False)) = Inr [] \<and>
   fst (migrateFromOrganizations0 demoEnv [''A'', ''B''] (demoState False)) = Inr () \<and>
   outcome_names (snd (migrateFromOrganizations0 demoEnv [''A'', ''B''] (demoState False))) =
     {#''B/r1'', ''B/r2'', ''B/r3''#} \<and>
   outcome_count (snd (migrateFromOrganizations0 demoEnv [''A'', ''B''] (demoState False))) = 3"
proof -
  have ds: "discovered demoEnv (list_calls (demoState False)) [''A'', ''B''] =
      [(''B'', mkRepo ''r1''), (''B'', mkRepo ''r2''), (''B'', mkRepo ''r3'')]"
    by (simp add: demoState_def demoEnv_def list_calls_def)
  have st: "outcome_names (demoState False) = {#}" "outcome_count (demoState False) = 0"
    by (simp_all add: demoState_def outcome_names_def successful_names_def failed_names_def
        outcome_count_def emptyResults_def)
  have pre: "reposResp demoEnv (list_calls (demoState False)) =
               Inl \<lparr>message = ''Not Found'', status = Some 404\<rparr>"
    by (simp add: demoState_def demoEnv_def list_calls_def)
  from listing_failure_degrades_to_empty
    [of demoEnv "''A''" "demoState False" "\<lparr>message = ''Not Found'', status = Some 404\<rparr>"
        _ "[''A'', ''B'']"] pre
  show ?thesis
    unfolding ds st by (simp add: identity_def fullName_def mkRepo_def)
qed

subsection \<open>What every operation but the report leaves alone\<close>

lemma frame_refl: "frame s s"
  by (simp add: frame_def)

lemma frame_trans: "frame s s1 \<Longrightarrow> frame s1 s2 \<Longrightarrow> frame s s2"
  by (simp add: frame_def)

lemma frame_sleep: "frame s (sleep n s)"
  by (simp add: frame_def sleep_def)

lemma frame_console_error: "frame s (console_error l s)"
  by (simp add: frame_def console_error_def)

lemma frame_console_warn: "frame s (console_warn l s)"
  by (simp add: frame_def console_warn_def)

lemma frame_transferRepository: "frame s (snd (transferRepository E r org s))"
  by (simp add: frame_def transferRepository_def Let_def now_def push_successful_def
      push_failed_def console_error_def request_transfer_def split: sum.splits)

lemma frame_transferRepository0: "frame s (snd (transferRepository0 E r org s))"
  by (simp add: frame_def transferRepository0_def Let_def now_def push_successful_def
      push_failed_def console_error_def request_transfer_def split: sum.splits)

lemma frame_listRepositories: "frame s (snd (listRepositories E org s))"
  by (simp add: frame_def listRepositories_def request_repos_def console_error_def
      split: sum.splits)

lemma frame_validateSetup0: "frame s (snd (validateSetup0 E s))"
  by (simp add: frame_def validateSetup0_def checkPermissions_def request_user_def
      request_org_def request_membership_def console_warn_def split: sum.splits)

lemma frame_validateSetup: "frame s (snd (validateSetup E s))"
  by (simp add: frame_def validateSetup_def checkPermissions_def request_user_def
      request_org_def request_membership_def split: sum.splits)

lemma frame_transferEach: "frame s (snd (transferEach E org rs s))"
proof (induction rs arbitrary: s)
  case Nil
  show ?case by (simp add: frame_refl)
next
  case (Cons r rs)
  have "frame s (sleep 1000 (snd (transferRepository E r org s)))"
    using frame_transferRepository frame_sleep by (rule frame_trans)
  then have "frame s (snd (transferEach E org rs (sleep 1000 (snd (transferRepository E r org s)))))"
    using Cons.IH by (rule frame_trans)
  then show ?case
    using frame_transferRepository [of s E r org]
    by (simp add: split_beta split: sum.splits)
qed

lemma frame_transferEach0: "frame s (snd (transferEach0 E org rs s))"
proof (induction rs arbitrary: s)
  case Nil
  show ?case by (simp add: frame_refl)
next
  case (Cons r rs)
  have "frame s (sleep 1000 (snd (transferRepository0 E r org s)))"
    using frame_transferRepository0 frame_sleep by (rule frame_trans)
  then have "frame s (snd (transferEach0 E org rs (sleep 1000 (snd (transferRepository0 E r org s)))))"
    using Cons.IH by (rule frame_trans)
  then show ?case
    using frame_transferRepository0 [of s E r org]
    by (simp add: split_beta split: sum.splits)
qed

lemma frame_migrateFromOrganizations: "frame s (snd (migrateFromOrganizations E orgs s))"
proof (induction orgs arbitrary: s)
  case Nil
  show ?case by (simp add: frame_refl)
next
  case (Cons org orgs)
  have 1: "frame s (snd (listRepositories E org s))"
    by (rule frame_listRepositories)
  have 2: "frame s (snd (transferEach E org rs (snd (listRepositories E org s))))" for rs
    using 1 frame_transferEach by (rule frame_trans)
  have 3: "frame s (snd (migrateFromOrganizations E orgs
             (snd (transferEach E org rs (snd (listRepositories E org s))))))" for rs
    using 2 Cons.IH by (rule frame_trans)
  show ?case
    using 1 2 3 by (simp add: split_beta split: sum.splits)
qed

lemma frame_migrateFromOrganizations0: "frame s (snd (migrateFromOrganizations0 E orgs s))"
proof (induction orgs arbitrary: s)
  case Nil
  show ?case by (simp add: frame_refl)
next
  case (Cons org orgs)
  have 1: "frame s (snd (listRepositories E org s))"
    by (rule frame_listRepositories)
  have 2: "frame s (snd (transferEach0 E org rs (snd (listRepositories E org s))))" for rs
    using 1 frame_transferEach0 by (rule frame_trans)
  have 3: "frame s (snd (migrateFromOrganizations0 E orgs
             (snd (transferEach0 E org rs (snd (listRepositories E org s))))))" for rs
    using 2 Cons.IH by (rule frame_trans)
  show ?case
    using 1 2 3 by (simp add: split_beta split: sum.splits)
qed

lemma frame_migrateEntries: "frame s (snd (migrateEntries E rs s))"
proof (induction rs arbitrary: s)
  case Nil
  show ?case by (simp add: frame_refl)
next
  case (Cons r rs)
  have w: "frame s (snd (migrateEntries E rs (console_warn l s)))" for l
    using frame_console_warn Cons.IH by (rule frame_trans)
  have "frame s (sleep 1000 (snd (transferRepository0 E r org s)))" for org
    using frame_transferRepository0 frame_sleep by (rule frame_trans)
  then have t: "frame s (snd (migrateEntries E rs (sleep 1000 (snd (transferRepository0 E r org s)))))"
    for org
    using Cons.IH by (rule frame_trans)
  show ?case
    using w t frame_transferRepository0 [of s E r]
    by (simp add: split_beta frame_refl del: append.simps split: sum.splits option.splits)
qed

lemma frame_migrateFromFile: "frame s (snd (migrateFromFile E p s))"
proof -
  have "frame s (console_error l (snd (migrateEntries E rs s)))" for l rs
    using frame_migrateEntries frame_console_error by (rule frame_trans)
  then show ?thesis
    using frame_migrateEntries [of s E]
    by (simp add: migrateFromFile_def split_beta frame_console_error
        split: disk_file.splits sum.splits)
qed

subsection \<open>The report: total and buckets\<close>

lemmas step_defs = validateSetup0_def checkPermissions_def listRepositories_def
  transferRepository0_def transferRepository_def generateReport_def
  request_user_def request_org_def request_membership_def request_repos_def request_transfer_def
  now_def sleep_def console_error_def console_warn_def push_successful_def push_failed_def
  user_calls_def org_calls_def membership_calls_def list_calls_def transfer_calls_def

lemma validateSetup0_frame:
  "results (snd (validateSetup0 E s)) = results s \<and>
   list_calls (snd (validateSetup0 E s)) = list_calls s \<and>
   sourceOrgs (snd (validateSetup0 E s)) = sourceOrgs s"
  by (simp add: validateSetup0_def checkPermissions_def request_user_def request_org_def
      request_membership_def console_warn_def list_calls_def split: sum.splits)

lemma outcome_names_cong: "results s1 = results s \<Longrightarrow> outcome_names s1 = outcome_names s"
  by (simp add: outcome_names_def successful_names_def failed_names_def)

lemma console_frame:
  "results (console_error l s) = results s" "results (console_warn l s) = results s"
  "outcome_names (console_error l s) = outcome_names s"
  "outcome_names (console_warn l s) = outcome_names s"
  by (simp_all add: console_error_def console_warn_def outcome_names_def successful_names_def
      failed_names_def)

lemma migrateEntries_effect:
  "outcome_names (snd (migrateEntries E rs s)) = outcome_names s + mset (file_identities rs) \<and>
   skipped (results (snd (migrateEntries E rs s))) = skipped (results s)"
proof (induction rs arbitrary: s)
  case Nil
  show ?case by simp
next
  case (Cons r rs)
  show ?case
  proof (cases "orgMatch r")
    case (Inl ex)
    then show ?thesis by simp
  next
    case (Inr m)
    show ?thesis
    proof (cases m)
      case None
      define s1 where "s1 = console_warn (''Could not determine organization for '' @ name r) s"
      have "outcome_names s1 = outcome_names s" "skipped (results s1) = skipped (results s)"
        by (simp_all add: s1_def console_frame)
      with Cons.IH [of s1] show ?thesis
        using Inr None by (simp add: s1_def del: append.simps)
    next
      case (Some org)
      define s1 where "s1 = sleep 1000 (snd (transferRepository0 E r org s))"
      obtain res where res: "fst (transferRepository0 E r org s) = Inr res"
        using transferRepository0_returns by blast
      have eq: "migrateEntries E (r # rs) s = migrateEntries E rs s1"
        using res Inr Some by (simp add: split_beta s1_def)
      have ro: "records_one (fullName org r) s (snd (transferRepository0 E r org s))"
        by (rule records_one_transferRepository0)
      have f: "outcome_names s1 = outcome_names s + {#fullName org r#}"
        "skipped (results s1) = skipped (results s)"
        using records_one_names [OF ro] ro
        by (simp_all add: s1_def sleep_frame records_one_def)
      from Cons.IH [of s1] show ?thesis
        unfolding eq using Inr Some by (simp add: f)
    qed
  qed
qed

lemma migrateFromFile_effect:
  "fst (migrateFromFile E p s) = Inr () \<and>
   outcome_names (snd (migrateFromFile E p s)) =
     outcome_names s + mset (case files E p of Entries rs \<Rightarrow> file_identities rs | _ \<Rightarrow> []) \<and>
   skipped (results (snd (migrateFromFile E p s))) = skipped (results s)"
proof (cases "files E p")
  case (Missing m)
  then show ?thesis
    by (simp add: migrateFromFile_def console_frame)
next
  case (Unusable m)
  then show ?thesis
    by (simp add: migrateFromFile_def console_frame)
next
  case (Entries rs)
  note me = migrateEntries_effect [of E rs s]
  show ?thesis
    using Entries me
    by (simp add: migrateFromFile_def split_beta console_frame split: sum.splits)
qed

lemma generateReport_frame:
  "successful (results (generateReport E s)) = successful (results s) \<and>
   failed (results (generateReport E s)) = failed (results s) \<and>
   skipped (results (generateReport E s)) = skipped (results s) \<and>
   total_is_sum (generateReport E s)"
  by (simp add: generateReport_def now_def Let_def total_is_sum_def)

lemma generateReport_names:
  "outcome_names (generateReport E s) = outcome_names s"
  using generateReport_frame [of E s]
  by (simp add: outcome_names_def successful_names_def failed_names_def)

lemma run0_try_effect:
  "outcome_names (snd (run0_try E s)) \<subseteq># outcome_names s + mset (attempted E s) \<and>
   skipped (results (snd (run0_try E s))) = skipped (results s) \<and>
   (fst (run0_try E s) = Inr () \<longrightarrow> total_is_sum (snd (run0_try E s)))"
proof -
  define s1 where "s1 = snd (validateSetup0 E s)"
  have v: "results s1 = results s" "list_calls s1 = list_calls s" "sourceOrgs s1 = sourceOrgs s"
    using validateSetup0_frame [of E s] by (simp_all add: s1_def)
  have n1: "outcome_names s1 = outcome_names s"
    using v(1) by (rule outcome_names_cong)
  note mf = migrateFromFile_effect [of E "''test-repos.json''" s1]
  note mo = migrateFromOrganizations0_effect [of E "sourceOrgs s" s1]
  note g = generateReport_frame generateReport_names
  show ?thesis
  proof (cases "fst (validateSetup0 E s)")
    case (Inl ex)
    then show ?thesis
      by (simp add: run0_try_def split_beta s1_def [symmetric] n1 v)
  next
    case (Inr u)
    show ?thesis
    proof (cases "existsSync E ''test-repos.json''")
      case True
      then show ?thesis
        using Inr mf
        by (simp add: run0_try_def split_beta s1_def [symmetric] n1 v g attempted_def)
    next
      case False
      then show ?thesis
        using Inr mo
        by (simp add: run0_try_def split_beta s1_def [symmetric] n1 v g attempted_def)
    qed
  qed
qed

lemma run0_effect:
  "outcome_names (snd (run0 E s)) \<subseteq># outcome_names s + mset (attempted E s) \<and>
   skipped (results (snd (run0 E s))) = skipped (results s) \<and>
   (fst (run0 E s) = Returned \<longrightarrow> total_is_sum (snd (run0 E s)))"
  using run0_try_effect [of E s]
  by (simp add: run0_def split_beta console_frame split: sum.splits)

lemma disjoint_of_distinct:
  assumes "outcome_names s \<subseteq># mset xs" and "distinct xs" and "skipped (results s) = []"
  shows "buckets_disjoint s"
proof -
  have "set (successful_names s) \<inter> set (failed_names s) = {}"
  proof (rule ccontr)
    assume "set (successful_names s) \<inter> set (failed_names s) \<noteq> {}"
    then obtain x where x: "x \<in> set (successful_names s)" "x \<in> set (failed_names s)"
      by blast
    then have "x \<in># mset (successful_names s)" "x \<in># mset (failed_names s)"
      by simp_all
    then have "1 \<le> count (mset (successful_names s)) x" "1 \<le> count (mset (failed_names s)) x"
      unfolding count_greater_eq_one_iff by this+
    then have "2 \<le> count (outcome_names s) x"
      unfolding outcome_names_def plus_multiset.rep_eq by linarith
    moreover have "count (outcome_names s) x \<le> count (mset xs) x"
      using assms(1) by (rule mset_subset_eq_count)
    moreover have "count (mset xs) x \<le> 1"
      using assms(2) by (simp add: distinct_count_atmost_1)
    ultimately show False by simp
  qed
  then show ?thesis
    using assms(3) by (simp add: buckets_disjoint_def skipped_names_def)
qed


lemma transferRepository_list_calls:
  "list_calls (snd (transferRepository E r org s)) = list_calls s"
  by (simp add: transferRepository_def Let_def now_def push_successful_def push_failed_def
      console_error_def request_transfer_def list_calls_def split: sum.splits)

lemma transferEach_bound:
  "outcome_names (snd (transferEach E org rs s)) \<subseteq># outcome_names s + mset (map (fullName org) rs) \<and>
   list_calls (snd (transferEach E org rs s)) = list_calls s"
proof (induction rs arbitrary: s)
  case Nil
  show ?case by simp
next
  case (Cons r rs)
  define t where "t = snd (transferRepository E r org s)"
  have ro: "records_one (fullName org r) s t"
    unfolding t_def by (rule records_one_transferRepository)
  have n: "outcome_names t = outcome_names s + {#fullName org r#}"
    using ro by (rule records_one_names)
  have l: "list_calls t = list_calls s"
    unfolding t_def by (rule transferRepository_list_calls)
  have stop: "outcome_names t \<subseteq># outcome_names s + mset (map (fullName org) (r # rs))"
    by (simp add: n)
  have "outcome_names (snd (transferEach E org rs (sleep 1000 t))) \<subseteq>#
          outcome_names (sleep 1000 t) + mset (map (fullName org) rs)"
    and l2: "list_calls (snd (transferEach E org rs (sleep 1000 t))) = list_calls (sleep 1000 t)"
    using Cons.IH [of "sleep 1000 t"] by simp_all
  then have go: "outcome_names (snd (transferEach E org rs (sleep 1000 t))) \<subseteq>#
          outcome_names s + mset (map (fullName org) (r # rs))"
    by (simp add: sleep_frame n add.commute add.left_commute)
  show ?case
    using stop go l l2
    by (simp add: split_beta t_def [symmetric] sleep_frame del: mset.simps list.map
        split: sum.splits)
qed

lemma migrateFromOrganizations_bound:
  "outcome_names (snd (migrateFromOrganizations E orgs s)) \<subseteq>#
     outcome_names s + mset (map identity (discovered E (list_calls s) orgs))"
proof (induction orgs arbitrary: s)
  case Nil
  show ?case by simp
next
  case (Cons org orgs)
  define rs where "rs = (case reposResp E (list_calls s) of Inl _ \<Rightarrow> [] | Inr rs \<Rightarrow> rs)"
  define s1 where "s1 = snd (listRepositories E org s)"
  define s2 where "s2 = snd (transferEach E org rs s1)"
  have l: "fst (listRepositories E org s) = Inr rs" "list_calls s1 = Suc (list_calls s)"
    "results s1 = results s"
    using listRepositories_effect [of E org s] by (simp_all add: rs_def s1_def)
  have n1: "outcome_names s1 = outcome_names s"
    using l(3) by (rule outcome_names_cong)
  have d: "discovered E (list_calls s) (org # orgs) =
             map (Pair org) rs @ discovered E (Suc (list_calls s)) orgs"
    by (simp add: rs_def split: sum.splits)
  have idm: "map identity (map (Pair org) rs) = map (fullName org) rs"
    by (simp add: identity_Pair)
  have b2: "outcome_names s2 \<subseteq># outcome_names s + mset (map (fullName org) rs)"
    and l2: "list_calls s2 = Suc (list_calls s)"
    using transferEach_bound [of E org rs s1] by (simp_all add: s2_def n1 l)
  have stop: "outcome_names s2 \<subseteq>#
      outcome_names s + mset (map identity (discovered E (list_calls s) (org # orgs)))"
    unfolding d using b2 by (simp add: idm [symmetric] del: map_map) (meson mset_subset_eq_add_left subset_mset.order_trans subset_mset.add_left_mono)
  have "outcome_names (snd (migrateFromOrganizations E orgs s2)) \<subseteq>#
      outcome_names s2 + mset (map identity (discovered E (Suc (list_calls s)) orgs))"
    using Cons.IH [of s2] by (simp add: l2)
  also have "\<dots> \<subseteq># outcome_names s + mset (map (fullName org) rs) +
      mset (map identity (discovered E (Suc (list_calls s)) orgs))"
    using b2 by (rule subset_mset.add_right_mono)
  finally have go: "outcome_names (snd (migrateFromOrganizations E orgs s2)) \<subseteq>#
      outcome_names s + mset (map identity (discovered E (list_calls s) (org # orgs)))"
    unfolding d by (simp add: idm [symmetric] add.assoc del: map_map)
  show ?case
    using l(1) stop go
    by (simp add: split_beta s1_def [symmetric] s2_def [symmetric] del: discovered.simps
        split: sum.splits)
qed


lemma validateSetup_frame:
  "results (snd (validateSetup E s)) = results s \<and>
   list_calls (snd (validateSetup E s)) = list_calls s \<and>
   sourceOrgs (snd (validateSetup E s)) = sourceOrgs s"
  by (simp add: validateSetup_def checkPermissions_def request_user_def request_org_def
      request_membership_def list_calls_def split: sum.splits)

lemma generateReport_skipped:
  "skipped (results (generateReport E s)) = skipped (results s)"
  using generateReport_frame [of E s] by simp

lemma run_effect:
  "outcome_names (snd (run E s)) \<subseteq>#
     outcome_names s + mset (map identity (discovered E (list_calls s) (sourceOrgs s))) \<and>
   skipped (results (snd (run E s))) = skipped (results s) \<and>
   total_is_sum (snd (run E s))"
proof -
  define v where "v = snd (validateSetup E s)"
  define m where "m = snd (migrateFromOrganizations E (sourceOrgs s) v)"
  have fv: "results v = results s" "list_calls v = list_calls s" "sourceOrgs v = sourceOrgs s"
    using validateSetup_frame [of E s] by (simp_all add: v_def)
  have nv: "outcome_names v = outcome_names s"
    using fv(1) by (rule outcome_names_cong)
  have bm: "outcome_names m \<subseteq>#
     outcome_names s + mset (map identity (discovered E (list_calls s) (sourceOrgs s)))"
    using migrateFromOrganizations_bound [of E "sourceOrgs s" v] by (simp add: m_def nv fv)
  have sm: "skipped (results m) = skipped (results s)"
    using frame_migrateFromOrganizations [of v E "sourceOrgs s"] fv(1)
    by (simp add: m_def frame_def)
  have t: "total_is_sum (generateReport E x)" for x
    using generateReport_frame [of E x] by simp
  show ?thesis
    using bm sm t
    by (simp add: run_def run_try_def split_beta v_def [symmetric] fv nv m_def [symmetric]
        generateReport_names generateReport_skipped console_frame split: sum.splits)
qed

text \<open>
  C5, as amended. Whenever the report is finalized, \<open>total\<close> is the sum of the sizes of
  the three buckets: for \<open>generateReport\<close> on any state, for every \<open>run\<close> of part_000 that
  returns, and for every \<open>run\<close> of export-users.js. The buckets are pairwise disjoint by
  repository identity when the run starts with empty buckets and no repository identity
  is attempted twice.
\<close>

theorem report_total_and_disjoint_buckets:
  "total_is_sum (generateReport E s) \<and>
   (fst (run0 E s) = Returned \<longrightarrow> total_is_sum (snd (run0 E s))) \<and>
   total_is_sum (snd (run E s)) \<and>
   (successful (results s) = [] \<and> failed (results s) = [] \<and> skipped (results s) = [] \<and>
    distinct (attempted E s) \<longrightarrow> buckets_disjoint (snd (run0 E s))) \<and>
   (successful (results s) = [] \<and> failed (results s) = [] \<and> skipped (results s) = [] \<and>
    distinct (map identity (discovered E (list_calls s) (sourceOrgs s))) \<longrightarrow>
      buckets_disjoint (snd (run E s)))"
proof -
  note r = run0_effect [of E s]
  note r2 = run_effect [of E s]
  have e: "outcome_names s = {#}" if "successful (results s) = []" "failed (results s) = []"
    using that by (simp add: outcome_names_def successful_names_def failed_names_def)
  have d0: "buckets_disjoint (snd (run0 E s))"
    if "successful (results s) = []" "failed (results s) = []" "skipped (results s) = []"
      and d: "distinct (attempted E s)"
  proof (rule disjoint_of_distinct [OF _ d])
    show "outcome_names (snd (run0 E s)) \<subseteq># mset (attempted E s)"
      using r e that(1,2) by simp
    show "skipped (results (snd (run0 E s))) = []" using r that(3) by simp
  qed
  have d2: "buckets_disjoint (snd (run E s))"
    if "successful (results s) = []" "failed (results s) = []" "skipped (results s) = []"
      and d: "distinct (map identity (discovered E (list_calls s) (sourceOrgs s)))"
  proof (rule disjoint_of_distinct [OF _ d])
    show "outcome_names (snd (run E s)) \<subseteq>#
            mset (map identity (discovered E (list_calls s) (sourceOrgs s)))"
      using r2 e that(1,2) by simp
    show "skipped (results (snd (run E s))) = []" using r2 that(3) by simp
  qed
  from r r2 d0 d2 generateReport_frame [of E s] show ?thesis by blast
qed

theorem report_total_and_disjoint_buckets_witness:
  "fst (run0 demoEnv (demoState False)) = Returned \<and>
   successful (results (demoState False)) = [] \<and> failed (results (demoState False)) = [] \<and>
   skipped (results (demoState False)) = [] \<and>
   attempted demoEnv (demoState False) = [''B/r1'', ''B/r2'', ''B/r3''] \<and>
   distinct (attempted demoEnv (demoState False)) \<and>
   total_is_sum (snd (run0 demoEnv (demoState False))) \<and>
   buckets_disjoint (snd (run0 demoEnv (demoState False)))"
proof -
  have a: "attempted demoEnv (demoState False) = [''B/r1'', ''B/r2'', ''B/r3'']"
    by (simp add: attempted_def existsSync_def demoEnv_def demoState_def list_calls_def
        identity_def fullName_def mkRepo_def)
  have e: "successful (results (demoState False)) = []" "failed (results (demoState False)) = []"
    "skipped (results (demoState False)) = []"
    by (simp_all add: demoState_def emptyResults_def)
  have r: "fst (run0 demoEnv (demoState False)) = Returned"
    by (simp add: run0_def run0_try_def existsSync_def demoEnv_def demoState_def step_defs
        emptyResults_def mkRepo_def Let_def)
  from report_total_and_disjoint_buckets [of demoEnv "demoState False"] a e r
  show ?thesis by simp
qed

text \<open>
  C5 as stated fails: with the source organizations \<open>A,A\<close>, a listing that returns
  \<open>r1\<close> both times, a first transfer that succeeds and a second that fails, the run
  of part_000 returns with a finalized report in which \<open>A/r1\<close> is in the successful
  and in the failed bucket.
\<close>

theorem buckets_not_disjoint_counterexample:
  "constructor0 dupEnv (Some False) = Inr dupState \<and>
   fst (run0 dupEnv dupState) = Returned \<and>
   total_is_sum (snd (run0 dupEnv dupState)) \<and>
   successful_names (snd (run0 dupEnv dupState)) = [''A/r1''] \<and>
   failed_names (snd (run0 dupEnv dupState)) = [''A/r1''] \<and>
   \<not> buckets_disjoint (snd (run0 dupEnv dupState))"
proof -
  have c: "constructor0 dupEnv (Some False) = Inr dupState"
    by (simp add: constructor0_def dupEnv_def dupState_def)
  have r: "fst (run0 dupEnv dupState) = Returned \<and>
     successful_names (snd (run0 dupEnv dupState)) = [''A/r1''] \<and>
     failed_names (snd (run0 dupEnv dupState)) = [''A/r1''] \<and>
     total_is_sum (snd (run0 dupEnv dupState))"
    by (simp add: run0_def run0_try_def existsSync_def dupEnv_def dupState_def step_defs
        emptyResults_def mkRepo_def Let_def successful_names_def failed_names_def
        total_is_sum_def)
  then have "\<not> buckets_disjoint (snd (run0 dupEnv dupState))"
    by (simp add: buckets_disjoint_def)
  with c r show ?thesis by simp
qed

subsection \<open>The skipped bucket and the report on abort\<close>

lemma run1_frame: "frame s (snd (run1 E s))"
proof -
  have "frame s (console_error l (snd (migrateFromOrganizations E orgs s)))" for l orgs
    using frame_migrateFromOrganizations frame_console_error by (rule frame_trans)
  then show ?thesis
    using frame_migrateFromOrganizations [of s E]
    by (simp add: run1_def run1_try_def split_beta frame_console_error split: sum.splits)
qed

lemma run_shape:
  "\<exists>s1. frame s s1 \<and> snd (run E s) = generateReport E s1"
proof -
  define v where "v = snd (validateSetup E s)"
  define m where "m = snd (migrateFromOrganizations E (sourceOrgs v) v)"
  have fv: "frame s v" by (simp add: v_def frame_validateSetup)
  have fm: "frame s m" unfolding m_def using fv frame_migrateFromOrganizations by (rule frame_trans)
  have fe: "frame s (console_error l v)" "frame s (console_error l m)" for l
    using fv fm frame_console_error frame_trans by blast+
  show ?thesis
    using fm fe
    by (auto simp add: run_def run_try_def split_beta v_def [symmetric] m_def [symmetric]
        split: sum.splits)
qed

lemma run0_shape:
  "\<exists>s1. frame s s1 \<and>
        (fst (run0 E s) = Exit 1 \<and> snd (run0 E s) = s1 \<or>
         fst (run0 E s) = Returned \<and> snd (run0 E s) = generateReport E s1)"
proof -
  define v where "v = snd (validateSetup0 E s)"
  define m where "m = snd (migrateFromOrganizations0 E (sourceOrgs v) v)"
  define f where "f = snd (migrateFromFile E ''test-repos.json'' v)"
  have fv: "frame s v" by (simp add: v_def frame_validateSetup0)
  have fm: "frame s m" unfolding m_def using fv frame_migrateFromOrganizations0 by (rule frame_trans)
  have ff: "frame s f" unfolding f_def using fv frame_migrateFromFile by (rule frame_trans)
  have fe: "frame s (console_error l v)" "frame s (console_error l m)"
    "frame s (console_error l f)" for l
    using fv fm ff frame_console_error frame_trans by blast+
  show ?thesis
    using fm ff fe
    by (auto simp add: run0_def run0_try_def split_beta v_def [symmetric] m_def [symmetric]
        f_def [symmetric] split: sum.splits)
qed

lemma skipped_empty_frame: "frame s s' \<Longrightarrow> skipped_empty s \<Longrightarrow> skipped_empty s'"
  by (simp add: frame_def skipped_empty_def results_skipped_empty_def)

lemma skipped_empty_generateReport: "skipped_empty s \<Longrightarrow> skipped_empty (generateReport E s)"
  by (simp add: skipped_empty_def results_skipped_empty_def generateReport_def now_def Let_def)

lemma skipped_empty_constructor0: "constructor0 E opt = Inr s \<Longrightarrow> skipped_empty s"
  by (auto simp: constructor0_def skipped_empty_def results_skipped_empty_def emptyResults_def
      split: option.splits if_splits)

lemma skipped_empty_constructor: "constructor E opt = Inr s \<Longrightarrow> skipped_empty s"
  by (auto simp: constructor_def constructor0_def skipped_empty_def results_skipped_empty_def
      emptyResults_def split: option.splits if_splits sum.splits)


text \<open>
  C10. The constructor leaves the skipped bucket empty, and no operation appends to it:
  after \<open>run\<close> in each variant, the skipped sequence is empty, a summary that exists has
  a skipped count of zero, and the same holds of every report written. A file entry
  without an extractable owner only produces a warning: no bucket changes.
\<close>

theorem skipped_bucket_is_never_filled:
  "(constructor0 E opt = Inr s \<longrightarrow> skipped_empty s) \<and>
   (constructor E opt = Inr s \<longrightarrow> skipped_empty s) \<and>
   (skipped_empty s \<longrightarrow>
      skipped_empty (snd (run0 E s)) \<and> skipped_empty (snd (run E s)) \<and>
      skipped_empty (snd (run1 E s))) \<and>
   (orgMatch r = Inr None \<longrightarrow>
      fst (migrateEntries E [r] s) = Inr () \<and>
      results (snd (migrateEntries E [r] s)) = results s \<and>
      stderr (snd (migrateEntries E [r] s)) =
        stderr s @ [''Could not determine organization for '' @ name r])"
proof -
  have r0: "skipped_empty (snd (run0 E s))" if "skipped_empty s"
    using run0_shape [of s E] that
    by (metis skipped_empty_frame skipped_empty_generateReport)
  have r2: "skipped_empty (snd (run E s))" if "skipped_empty s"
    using run_shape [of s E] that
    by (metis skipped_empty_frame skipped_empty_generateReport)
  have r1: "skipped_empty (snd (run1 E s))" if "skipped_empty s"
    using run1_frame [of s E] that by (rule skipped_empty_frame)
  have e: "fst (migrateEntries E [r] s) = Inr () \<and>
      results (snd (migrateEntries E [r] s)) = results s \<and>
      stderr (snd (migrateEntries E [r] s)) =
        stderr s @ [''Could not determine organization for '' @ name r]"
    if "orgMatch r = Inr None"
    using that by (simp add: console_warn_def del: append.simps)
  from r0 r1 r2 e skipped_empty_constructor0 [of E opt s] skipped_empty_constructor [of E opt s]
  show ?thesis by blast
qed

theorem skipped_bucket_is_never_filled_witness:
  "constructor0 fileEnv None = Inr ((demoState True)\<lparr>stopOnFailure := False\<rparr>) \<and>
   skipped_empty ((demoState True)\<lparr>stopOnFailure := False\<rparr>) \<and>
   orgMatch \<lparr>name = ''orphan'', url = Some ''https://example.org/orphan'',
             sshUrl = Some ''git@example.org:orphan.git''\<rparr> = Inr None \<and>
   fst (run0 fileEnv ((demoState True)\<lparr>stopOnFailure := False\<rparr>)) = Returned \<and>
   successful_names (snd (run0 fileEnv ((demoState True)\<lparr>stopOnFailure := False\<rparr>))) = [''senacor/app''] \<and>
   failed (results (snd (run0 fileEnv ((demoState True)\<lparr>stopOnFailure := False\<rparr>)))) = [] \<and>
   skipped (results (snd (run0 fileEnv ((demoState True)\<lparr>stopOnFailure := False\<rparr>)))) = [] \<and>
   stderr (snd (run0 fileEnv ((demoState True)\<lparr>stopOnFailure := False\<rparr>))) =
     [''Could not verify permissions for target org: Insufficient permissions for target org. Need admin/owner, have: member'',
      ''Could not determine organization for orphan''] \<and>
   skipped_empty (snd (run0 fileEnv ((demoState True)\<lparr>stopOnFailure := False\<rparr>)))"
proof -
  let ?s = "(demoState True)\<lparr>stopOnFailure := False\<rparr>"
  have c: "constructor0 fileEnv None = Inr ?s"
    by (simp add: constructor0_def fileEnv_def demoEnv_def demoState_def)
  have o: "orgMatch \<lparr>name = ''orphan'', url = Some ''https://example.org/orphan'',
             sshUrl = Some ''git@example.org:orphan.git''\<rparr> = Inr None"
    by (simp add: orgMatch_def capture_owner_def)
  have o2: "orgMatch \<lparr>name = ''app'', url = Some ''https://github.com/senacor/app'',
                         sshUrl = Some ''git@github.com:senacor/app.git''\<rparr> = Inr (Some ''senacor'')"
    by (simp add: orgMatch_def capture_owner_def)
  have r: "fst (run0 fileEnv ?s) = Returned \<and>
      successful_names (snd (run0 fileEnv ?s)) = [''senacor/app''] \<and>
      failed (results (snd (run0 fileEnv ?s))) = [] \<and>
      skipped (results (snd (run0 fileEnv ?s))) = [] \<and>
      stderr (snd (run0 fileEnv ?s)) =
     [''Could not verify permissions for target org: Insufficient permissions for target org. Need admin/owner, have: member'',
      ''Could not determine organization for orphan'']"
    by (simp add: run0_def run0_try_def existsSync_def migrateFromFile_def o o2
        fileEnv_def demoEnv_def demoState_def step_defs emptyResults_def Let_def
        successful_names_def)
  from skipped_bucket_is_never_filled [of fileEnv None ?s] c o r show ?thesis
    by simp
qed

lemma run_always_persists:
  "written (snd (run E s)) = written s @ [(logFile s, results (snd (run E s)))] \<and>
   summary (results (snd (run E s))) \<noteq> None"
proof -
  obtain s1 where f: "frame s s1" and r: "snd (run E s) = generateReport E s1"
    using run_shape by blast
  have "written (generateReport E s1) = written s1 @ [(logFile s1, results (generateReport E s1))]"
    "summary (results (generateReport E s1)) \<noteq> None"
    by (simp_all add: generateReport_def now_def Let_def)
  with f r show ?thesis
    by (simp add: frame_def)
qed

lemma run0_exit_persists_nothing:
  "fst (run0 E s) = Exit n \<Longrightarrow>
   written (snd (run0 E s)) = written s \<and> summary (results (snd (run0 E s))) = summary (results s)"
  using run0_shape [of s E] by (auto simp: frame_def)

text \<open>
  C3 on part_000: with a credential that does not authenticate, validation raises,
  \<open>run\<close> exits with status 1, and no report has been finalized or written. The \<open>run\<close> of
  export-users.js, on the same input, exits with status 1 after writing the report.
\<close>

theorem abort_of_part_000_writes_no_report:
  "constructor0 authFailEnv (Some False) = Inr ((demoState False)\<lparr>stopOnFailure := False\<rparr>) \<and>
   fst (run0 authFailEnv ((demoState False)\<lparr>stopOnFailure := False\<rparr>)) = Exit 1 \<and>
   stderr (snd (run0 authFailEnv ((demoState False)\<lparr>stopOnFailure := False\<rparr>))) =
     [''Migration failed: Authentication failed: Bad credentials''] \<and>
   written (snd (run0 authFailEnv ((demoState False)\<lparr>stopOnFailure := False\<rparr>))) = [] \<and>
   summary (results (snd (run0 authFailEnv ((demoState False)\<lparr>stopOnFailure := False\<rparr>)))) = None \<and>
   constructor authFailEnv (Some False) = Inr (demoState False) \<and>
   fst (run authFailEnv (demoState False)) = Exit 1 \<and>
   map fst (written (snd (run authFailEnv (demoState False)))) = [''migration-log-2024-05-06.json'']"
  by (simp add: constructor_def constructor0_def run0_def run0_try_def run_def run_try_def
      validateSetup_def authFailEnv_def demoEnv_def demoState_def step_defs emptyResults_def
      Let_def)

subsection \<open>Validation\<close>

lemma validateSetup0_auth_fails:
  "userResp E (user_calls s) = Inl err \<Longrightarrow>
   fst (validateSetup0 E s) = Inl (Error (''Authentication failed: '' @ message err))"
  by (simp add: validateSetup0_def request_user_def)

lemma validateSetup0_org_fails:
  "userResp E (user_calls s) = Inr login \<Longrightarrow> orgResp E (org_calls s) = Inl err \<Longrightarrow>
   fst (validateSetup0 E s) =
     Inl (Error (''Target organization '' @ quote @ targetOrg s @ quote @ '' not found or no access''))"
  by (simp add: validateSetup0_def request_user_def request_org_def org_calls_def)

lemma validateSetup0_passes:
  "userResp E (user_calls s) = Inr login \<Longrightarrow> orgResp E (org_calls s) = Inr u \<Longrightarrow>
   fst (validateSetup0 E s) = Inr ()"
  by (simp add: validateSetup0_def request_user_def request_org_def org_calls_def split_beta
      split: sum.splits)

lemma validateSetup0_user_query_fails:
  "userResp E (user_calls s) = Inr login \<Longrightarrow> orgResp E (org_calls s) = Inr u \<Longrightarrow>
   userResp E (Suc (user_calls s)) = Inl err \<Longrightarrow>
   snd (validateSetup0 E s) =
     s\<lparr>calls := calls s @ [GetUser, GetOrg (targetOrg s), GetUser],
       stderr := stderr s @ [permissionWarning (message err)]\<rparr>"
  by (simp add: validateSetup0_def checkPermissions_def request_user_def request_org_def
      org_calls_def user_calls_def console_warn_def permissionWarning_def)

lemma validateSetup0_membership_query_fails:
  "userResp E (user_calls s) = Inr login \<Longrightarrow> orgResp E (org_calls s) = Inr u \<Longrightarrow>
   userResp E (Suc (user_calls s)) = Inr login' \<Longrightarrow>
   membershipResp E (membership_calls s) = Inl err \<Longrightarrow>
   snd (validateSetup0 E s) =
     s\<lparr>calls := calls s @ [GetUser, GetOrg (targetOrg s), GetUser, GetMembership (targetOrg s) login'],
       stderr := stderr s @ [permissionWarning (message err)]\<rparr>"
  by (simp add: validateSetup0_def checkPermissions_def request_user_def request_org_def
      request_membership_def org_calls_def user_calls_def membership_calls_def console_warn_def
      permissionWarning_def)

lemma validateSetup0_role:
  "userResp E (user_calls s) = Inr login \<Longrightarrow> orgResp E (org_calls s) = Inr u \<Longrightarrow>
   userResp E (Suc (user_calls s)) = Inr login' \<Longrightarrow>
   membershipResp E (membership_calls s) = Inr role \<Longrightarrow>
   snd (validateSetup0 E s) =
     (if role = ''admin'' \<or> role = ''owner''
      then s\<lparr>calls := calls s @ [GetUser, GetOrg (targetOrg s), GetUser, GetMembership (targetOrg s) login']\<rparr>
      else s\<lparr>calls := calls s @ [GetUser, GetOrg (targetOrg s), GetUser, GetMembership (targetOrg s) login'],
             stderr := stderr s @ [permissionWarning (insufficient role)]\<rparr>)"
  by (simp add: validateSetup0_def checkPermissions_def request_user_def request_org_def
      request_membership_def org_calls_def user_calls_def membership_calls_def console_warn_def
      permissionWarning_def insufficient_def)

lemma validateSetup_passes:
  "userResp E (user_calls s) = Inr login \<Longrightarrow> orgResp E (org_calls s) = Inr u \<Longrightarrow>
   fst (validateSetup E s) = Inr ()"
  by (simp add: validateSetup_def request_user_def request_org_def org_calls_def split_beta
      split: sum.splits)

lemma validateSetup_membership:
  "userResp E (user_calls s) = Inr login \<Longrightarrow> orgResp E (org_calls s) = Inr u \<Longrightarrow>
   userResp E (Suc (user_calls s)) = Inr login' \<Longrightarrow>
   snd (validateSetup E s) =
     s\<lparr>calls := calls s @ [GetUser, GetOrg (targetOrg s), GetUser, GetMembership (targetOrg s) login']\<rparr>"
  by (simp add: validateSetup_def checkPermissions_def request_user_def request_org_def
      request_membership_def org_calls_def user_calls_def membership_calls_def
      split: sum.splits)

lemma validateSetup0_fails_iff:
  "(\<exists>ex. fst (validateSetup0 E s) = Inl ex) \<longleftrightarrow>
   (\<exists>err. userResp E (user_calls s) = Inl err) \<or> (\<exists>err. orgResp E (org_calls s) = Inl err)"
  by (auto simp add: validateSetup0_def request_user_def request_org_def org_calls_def split_beta
      split: sum.splits)


text \<open>
  C8. \<open>validateSetup\<close> of part_000 raises exactly when the first \<open>GET /user\<close> fails
  (authentication) or the lookup of the target organization fails. When both succeed
  and the permission step fails on a query (the second \<open>GET /user\<close> or the membership
  request), it returns normally, and the only effect besides the requests is one
  warning line.
\<close>

theorem permission_check_failure_is_not_fatal:
  "((\<exists>ex. fst (validateSetup0 E s) = Inl ex) \<longleftrightarrow>
      (\<exists>err. userResp E (user_calls s) = Inl err) \<or> (\<exists>err. orgResp E (org_calls s) = Inl err)) \<and>
   (userResp E (user_calls s) = Inl err \<longrightarrow>
      fst (validateSetup0 E s) = Inl (Error (''Authentication failed: '' @ message err))) \<and>
   (userResp E (user_calls s) = Inr login \<and> orgResp E (org_calls s) = Inl err \<longrightarrow>
      fst (validateSetup0 E s) =
        Inl (Error (''Target organization '' @ quote @ targetOrg s @ quote @
                    '' not found or no access''))) \<and>
   (userResp E (user_calls s) = Inr login \<and> orgResp E (org_calls s) = Inr u \<and>
    userResp E (Suc (user_calls s)) = Inr login' \<and>
    membershipResp E (membership_calls s) = Inl err \<longrightarrow>
      validateSetup0 E s =
        (Inr (),
         s\<lparr>calls := calls s @ [GetUser, GetOrg (targetOrg s), GetUser,
                                GetMembership (targetOrg s) login'],
           stderr := stderr s @ [permissionWarning (message err)]\<rparr>)) \<and>
   (userResp E (user_calls s) = Inr login \<and> orgResp E (org_calls s) = Inr u \<and>
    userResp E (Suc (user_calls s)) = Inl err \<longrightarrow>
      validateSetup0 E s =
        (Inr (),
         s\<lparr>calls := calls s @ [GetUser, GetOrg (targetOrg s), GetUser],
           stderr := stderr s @ [permissionWarning (message err)]\<rparr>))"
  using validateSetup0_fails_iff [of E s] validateSetup0_passes [of E s login u]
    validateSetup0_membership_query_fails [of E s login u login' err]
    validateSetup0_user_query_fails [of E s login u err]
    validateSetup0_auth_fails [of E s err] validateSetup0_org_fails [of E s login err]
  by (simp add: prod_eq_iff)

theorem permission_check_failure_is_not_fatal_witness:
  "userResp forbiddenEnv (user_calls (demoState False)) = Inr ''alice'' \<and>
   orgResp forbiddenEnv (org_calls (demoState False)) = Inr () \<and>
   userResp forbiddenEnv (Suc (user_calls (demoState False))) = Inr ''alice'' \<and>
   membershipResp forbiddenEnv (membership_calls (demoState False)) =
     Inl \<lparr>message = ''Forbidden'', status = Some 403\<rparr> \<and>
   validateSetup0 forbiddenEnv (demoState False) =
     (Inr (),
      (demoState False)
        \<lparr>calls := [GetUser, GetOrg ''T'', GetUser, GetMembership ''T'' ''alice''],
         stderr := [''Could not verify permissions for target org: Forbidden'']\<rparr>)"
proof -
  have pre: "userResp forbiddenEnv (user_calls (demoState False)) = Inr ''alice''"
    "orgResp forbiddenEnv (org_calls (demoState False)) = Inr ()"
    "userResp forbiddenEnv (Suc (user_calls (demoState False))) = Inr ''alice''"
    "membershipResp forbiddenEnv (membership_calls (demoState False)) =
       Inl \<lparr>message = ''Forbidden'', status = Some 403\<rparr>"
    by (simp_all add: forbiddenEnv_def demoEnv_def)
  from permission_check_failure_is_not_fatal
    [where E = forbiddenEnv and s = "demoState False" and login = "''alice''" and u = "()"
       and login' = "''alice''" and err = "\<lparr>message = ''Forbidden'', status = Some 403\<rparr>"]
    pre
  show ?thesis
    by (simp add: demoState_def permissionWarning_def)
qed

text \<open>
  C9. When the membership request succeeds and reports a role other than \<open>admin\<close> and
  \<open>owner\<close>, the permission step raises the insufficient-permissions error, and the
  \<open>catch\<close> that handles failed queries handles it: \<open>validateSetup\<close> returns normally, in
  part_000 with the warning that carries the error's message, in export-users.js
  silently. The outcome is the one of a membership request that fails with that
  message (in export-users.js: with any error).
\<close>

theorem confirmed_denial_is_only_a_warning:
  assumes "userResp E (user_calls s) = Inr login" and "orgResp E (org_calls s) = Inr u"
    and "userResp E (Suc (user_calls s)) = Inr login'"
    and "membershipResp E (membership_calls s) = Inr role"
    and "role \<noteq> ''admin''" and "role \<noteq> ''owner''"
  shows "fst (checkPermissions E (s\<lparr>calls := calls s @ [GetUser, GetOrg (targetOrg s)]\<rparr>)) =
           Inl (Error (insufficient role)) \<and>
         validateSetup0 E s =
           (Inr (),
            s\<lparr>calls := calls s @ [GetUser, GetOrg (targetOrg s), GetUser,
                                   GetMembership (targetOrg s) login'],
              stderr := stderr s @ [permissionWarning (insufficient role)]\<rparr>) \<and>
         validateSetup E s =
           (Inr (),
            s\<lparr>calls := calls s @ [GetUser, GetOrg (targetOrg s), GetUser,
                                   GetMembership (targetOrg s) login']\<rparr>) \<and>
         validateSetup0 (E\<lparr>membershipResp := (\<lambda>k. Inl \<lparr>message = insufficient role, status = st\<rparr>)\<rparr>) s =
           validateSetup0 E s \<and>
         validateSetup (E\<lparr>membershipResp := (\<lambda>k. Inl err)\<rparr>) s = validateSetup E s"
proof -
  have raised: "fst (checkPermissions E (s\<lparr>calls := calls s @ [GetUser, GetOrg (targetOrg s)]\<rparr>)) =
           Inl (Error (insufficient role))"
    using assms
    by (simp add: checkPermissions_def request_user_def request_membership_def user_calls_def
        membership_calls_def insufficient_def)
  have v0: "validateSetup0 E s =
           (Inr (),
            s\<lparr>calls := calls s @ [GetUser, GetOrg (targetOrg s), GetUser,
                                   GetMembership (targetOrg s) login'],
              stderr := stderr s @ [permissionWarning (insufficient role)]\<rparr>)"
    using validateSetup0_passes [OF assms(1,2)] validateSetup0_role [OF assms(1-4)] assms(5,6)
    by (simp add: prod_eq_iff)
  have v: "validateSetup E s =
           (Inr (),
            s\<lparr>calls := calls s @ [GetUser, GetOrg (targetOrg s), GetUser,
                                   GetMembership (targetOrg s) login']\<rparr>)"
    using validateSetup_passes [OF assms(1,2)] validateSetup_membership [OF assms(1-3)]
    by (simp add: prod_eq_iff)
  let ?E0 = "E\<lparr>membershipResp := (\<lambda>k. Inl \<lparr>message = insufficient role, status = st\<rparr>)\<rparr>"
  have same0: "validateSetup0 ?E0 s = validateSetup0 E s"
    using validateSetup0_passes [of ?E0 s login u]
      validateSetup0_membership_query_fails
        [of ?E0 s login u login' "\<lparr>message = insufficient role, status = st\<rparr>"] assms(1-3)
    unfolding v0 by (simp add: prod_eq_iff)
  let ?E1 = "E\<lparr>membershipResp := (\<lambda>k. Inl err)\<rparr>"
  have same: "validateSetup ?E1 s = validateSetup E s"
    using validateSetup_passes [of ?E1 s login u]
      validateSetup_membership [of ?E1 s login u login'] assms(1-3)
    unfolding v by (simp add: prod_eq_iff)
  from raised v0 v same0 same show ?thesis by simp
qed

theorem confirmed_denial_is_only_a_warning_witness:
  "userResp demoEnv (user_calls (demoState False)) = Inr ''alice'' \<and>
   orgResp demoEnv (org_calls (demoState False)) = Inr () \<and>
   userResp demoEnv (Suc (user_calls (demoState False))) = Inr ''alice'' \<and>
   membershipResp demoEnv (membership_calls (demoState False)) = Inr ''member'' \<and>
   ''member'' \<noteq> ''admin'' \<and> ''member'' \<noteq> ''owner'' \<and>
   validateSetup0 demoEnv (demoState False) =
     (Inr (),
      (demoState False)
        \<lparr>calls := [GetUser, GetOrg ''T'', GetUser, GetMembership ''T'' ''alice''],
         stderr := [''Could not verify permissions for target org: Insufficient permissions for target org. Need admin/owner, have: member'']\<rparr>) \<and>
   validateSetup demoEnv (demoState False) =
     (Inr (),
      (demoState False)
        \<lparr>calls := [GetUser, GetOrg ''T'', GetUser, GetMembership ''T'' ''alice'']\<rparr>)"
proof -
  have pre: "userResp demoEnv (user_calls (demoState False)) = Inr ''alice''"
    "orgResp demoEnv (org_calls (demoState False)) = Inr ()"
    "userResp demoEnv (Suc (user_calls (demoState False))) = Inr ''alice''"
    "membershipResp demoEnv (membership_calls (demoState False)) = Inr ''member''"
    "''member'' \<noteq> ''admin''" "''member'' \<noteq> ''owner''"
    by (simp_all add: demoEnv_def)
  from confirmed_denial_is_only_a_warning [OF pre] pre show ?thesis
    by (simp add: demoState_def permissionWarning_def insufficient_def)
qed

subsection \<open>The success rate\<close>

lemma pow2_powi: "pow2 e = 2 powi e"
  by (simp add: pow2_def power_int_def field_simps)

lemma pow2_pos: "0 < pow2 e"
  by (simp add: pow2_powi)

lemma pow2_add: "pow2 (a + b) = pow2 a * pow2 b"
  by (simp add: pow2_powi power_int_add)

lemma pow2_mono: "a \<le> b \<Longrightarrow> pow2 a \<le> pow2 b"
  by (simp add: pow2_powi power_int_increasing)

lemma pow2_nat: "pow2 (int n) = 2 ^ n"
  by (simp add: pow2_def)

lemma pow2_diff: "pow2 (a - b) = pow2 a / pow2 b"
  by (simp add: pow2_powi power_int_diff)

lemma ilog2_bounds:
  assumes "0 < x"
  shows "pow2 (ilog2 x) \<le> x \<and> x < pow2 (ilog2 x + 1)"
proof -
  obtain p q where pq: "quotient_of x = (p, q)" by (cases "quotient_of x")
  have q: "0 < q" using pq by (rule quotient_of_denom_pos)
  have x: "x = of_int p / of_int q" using pq by (rule quotient_of_div)
  have p: "0 < p"
    using assms q unfolding x by (simp add: zero_less_divide_iff)
  define bp where "bp = bitlen p"
  define bq where "bq = bitlen q"
  have bp: "1 \<le> bp" "2 ^ nat (bp - 1) \<le> p" "p < 2 ^ nat bp"
    using bitlen_bounds [OF p] p by (auto simp: bp_def bitlen_alt_def)
  have bq: "1 \<le> bq" "2 ^ nat (bq - 1) \<le> q" "q < 2 ^ nat bq"
    using bitlen_bounds [OF q] q by (auto simp: bq_def bitlen_alt_def)
  have P1: "pow2 (bp - 1) \<le> of_int p"
  proof -
    have "(of_int (2 ^ nat (bp - 1)) :: rat) \<le> of_int p" using bp(2) by (simp only: of_int_le_iff)
    then show ?thesis using bp(1) by (simp add: pow2_def)
  qed
  have P2: "of_int p < pow2 bp"
  proof -
    have "(of_int p :: rat) < of_int (2 ^ nat bp)" using bp(3) by (simp only: of_int_less_iff)
    then show ?thesis using bp(1) by (simp add: pow2_def)
  qed
  have Q1: "pow2 (bq - 1) \<le> of_int q"
  proof -
    have "(of_int (2 ^ nat (bq - 1)) :: rat) \<le> of_int q" using bq(2) by (simp only: of_int_le_iff)
    then show ?thesis using bq(1) by (simp add: pow2_def)
  qed
  have Q2: "of_int q < pow2 bq"
  proof -
    have "(of_int q :: rat) < of_int (2 ^ nat bq)" using bq(3) by (simp only: of_int_less_iff)
    then show ?thesis using bq(1) by (simp add: pow2_def)
  qed
  have qr: "(0::rat) < of_int q" using q by simp
  have pr: "(0::rat) < of_int p" using p by simp
  have lo: "pow2 (bp - bq - 1) < x"
  proof -
    have "pow2 (bp - bq - 1) * of_int q < pow2 (bp - bq - 1) * pow2 bq"
      using Q2 pow2_pos by (simp add: mult_strict_left_mono)
    also have "\<dots> = pow2 (bp - 1)"
      by (simp add: pow2_add [symmetric])
    also have "\<dots> \<le> of_int p" by (rule P1)
    finally show ?thesis
      unfolding x using qr by (simp add: pos_less_divide_eq)
  qed
  have hi: "x < pow2 (bp - bq + 1)"
  proof -
    have "of_int p < pow2 bp" by (rule P2)
    also have "\<dots> = pow2 (bp - bq + 1) * pow2 (bq - 1)"
      by (simp add: pow2_add [symmetric])
    also have "\<dots> \<le> pow2 (bp - bq + 1) * of_int q"
      using Q1 pow2_pos by (simp add: mult_left_mono less_imp_le)
    finally show ?thesis
      unfolding x using qr by (simp add: pos_divide_less_eq)
  qed
  show ?thesis
  proof (cases "pow2 (bp - bq) \<le> x")
    case True
    then have "ilog2 x = bp - bq"
      by (simp add: ilog2_def pq bp_def bq_def)
    with True hi show ?thesis by simp
  next
    case False
    then have "ilog2 x = bp - bq - 1"
      by (simp add: ilog2_def pq bp_def bq_def)
    with False lo show ?thesis by simp
  qed
qed

lemma round_half_even_error: "\<bar>of_int (round_half_even x) - x\<bar> \<le> 1 / 2"
proof -
  have "of_int \<lfloor>x\<rfloor> \<le> x" "x < of_int \<lfloor>x\<rfloor> + 1" by linarith+
  then show ?thesis
    by (auto simp add: round_half_even_def Let_def abs_le_iff)
qed


lemma pow2_less_cancel: "pow2 a < pow2 b \<Longrightarrow> a < b"
  using pow2_mono [of b a] by (cases "a < b") simp_all

lemma pow2_1: "pow2 1 = 2"
  by (simp add: pow2_def)

lemma pow2_Suc: "pow2 (e + 1) = 2 * pow2 e"
  by (simp add: pow2_add pow2_1)

lemma pow2_pred: "pow2 (e - 1) = pow2 e / 2"
  by (simp add: pow2_diff pow2_1)

lemma round_double_accurate:
  assumes lo: "pow2 (- 1022) \<le> x" and hi: "x < pow2 1023"
  shows "\<exists>y. round_double x = Fin y \<and> \<bar>y - x\<bar> \<le> x * pow2 (- 53)"
proof -
  have x0: "0 < x" using lo pow2_pos [of "- 1022"] by linarith
  define e where "e = ilog2 x"
  have b: "pow2 e \<le> x" "x < pow2 (e + 1)"
    using ilog2_bounds [OF x0] by (simp_all add: e_def)
  have "pow2 (- 1022) < pow2 (e + 1)" using lo b(2) by linarith
  then have e1: "- 1022 \<le> e" using pow2_less_cancel by fastforce
  define ulp where "ulp = pow2 (e - 52)"
  define n where "n = round_half_even (x / ulp)"
  define y where "y = of_int n * ulp"
  have u0: "0 < ulp" by (simp add: ulp_def pow2_pos)
  have "\<bar>of_int n - x / ulp\<bar> \<le> 1 / 2"
    unfolding n_def by (rule round_half_even_error)
  then have "\<bar>of_int n - x / ulp\<bar> * ulp \<le> 1 / 2 * ulp"
    using u0 by (simp add: mult_right_mono)
  moreover have "\<bar>of_int n - x / ulp\<bar> * ulp = \<bar>y - x\<bar>"
  proof -
    have "\<bar>of_int n - x / ulp\<bar> * ulp = \<bar>(of_int n - x / ulp) * ulp\<bar>"
      using u0 by (simp add: abs_mult)
    also have "(of_int n - x / ulp) * ulp = y - x"
      using u0 by (simp add: y_def field_simps)
    finally show ?thesis .
  qed
  ultimately have err: "\<bar>y - x\<bar> \<le> ulp / 2" by simp
  have "ulp / 2 = pow2 e * pow2 (- 53)"
    by (simp add: ulp_def pow2_add [symmetric] pow2_pred [symmetric])
  also have "\<dots> \<le> x * pow2 (- 53)"
    using b(1) pow2_pos [of "- 53"] by (simp add: mult_right_mono less_imp_le)
  finally have rel: "\<bar>y - x\<bar> \<le> x * pow2 (- 53)" using err by linarith
  have small: "pow2 (- 53) \<le> 1 / 2"
    using pow2_mono [of "- 53" "- 1"] by (simp add: pow2_def)
  have "x * pow2 (- 53) \<le> x * (1 / 2)"
    using small x0 by (simp only: mult_left_mono less_imp_le)
  then have yb: "x / 2 \<le> y" "y \<le> 2 * x" using rel by (simp_all add: abs_le_iff)
  have "2 * x < pow2 1024"
    using hi pow2_Suc [of 1023] by simp
  then have no_over: "\<not> pow2 1024 \<le> y" using yb by linarith
  have "0 < y" using yb x0 by linarith
  then have no_under: "\<not> y \<le> - pow2 1024" using pow2_pos [of 1024] by linarith
  have "round_double x = Fin y"
    using x0 e1 no_over no_under
    by (simp add: round_double_def Let_def e_def [symmetric] ulp_def [symmetric]
        n_def [symmetric] y_def [symmetric] max_def)
  with rel show ?thesis by blast
qed


lemma js_rate_accurate:
  assumes a: "0 < a" and n: "a + b < 2 ^ 32"
  shows "\<exists>y. js_times (js_div a (a + b)) 100 = Fin y \<and>
             \<bar>y - 100 * of_nat a / of_nat (a + b)\<bar> \<le> 100 * of_nat a / of_nat (a + b) * pow2 (- 51)"
proof -
  define x :: rat where "x = of_nat a / of_nat (a + b)"
  have d: "(0::rat) < of_nat (a + b)" using a by simp
  have x1: "x \<le> 1" unfolding x_def using d by (simp add: divide_le_eq)
  have "(of_nat (a + b) :: rat) \<le> 2 ^ 32"
    using n by (metis less_imp_le of_nat_le_iff of_nat_numeral of_nat_power)
  moreover have "(1::rat) \<le> of_nat a" using a by simp
  ultimately have "1 / 2 ^ 32 \<le> x"
    unfolding x_def using d by (simp add: frac_le)
  then have x32: "pow2 (- 32) \<le> x" by (simp add: pow2_def)
  have x0: "0 < x" using x32 pow2_pos [of "- 32"] by linarith
  have "pow2 (- 1022) \<le> x" using pow2_mono [of "- 1022" "- 32"] x32 by simp
  moreover have "x < pow2 1023" using x1 pow2_mono [of 1 1023] by (simp add: pow2_1)
  ultimately obtain y1 where y1: "round_double x = Fin y1" "\<bar>y1 - x\<bar> \<le> x * pow2 (- 53)"
    using round_double_accurate by blast
  have small: "pow2 (- 53) \<le> 1 / 2"
    using pow2_mono [of "- 53" "- 1"] by (simp add: pow2_def)
  have "x * pow2 (- 53) \<le> x * (1 / 2)"
    using small x0 by (simp only: mult_left_mono less_imp_le)
  then have yb: "x / 2 \<le> y1" "y1 \<le> 2 * x" using y1(2) by (simp_all add: abs_le_iff)
  have "pow2 (- 33) \<le> x / 2" using x32 pow2_pred [of "- 32"] by simp
  then have "pow2 (- 33) \<le> y1 * 100" using yb(1) pow2_pos [of "- 33"] by linarith
  then have lo2: "pow2 (- 1022) \<le> y1 * 100"
    using pow2_mono [of "- 1022" "- 33"] by simp
  have "y1 * 100 \<le> pow2 8" using yb(2) x1 by (simp add: pow2_def)
  then have hi2: "y1 * 100 < pow2 1023"
    using pow2_mono [of 9 1023] pow2_Suc [of 8] pow2_pos [of 8] by simp
  obtain y2 where y2: "round_double (y1 * 100) = Fin y2"
    "\<bar>y2 - y1 * 100\<bar> \<le> y1 * 100 * pow2 (- 53)"
    using round_double_accurate [OF lo2 hi2] by blast
  have eq: "js_times (js_div a (a + b)) 100 = Fin y2"
    using a y1(1) y2(1) by (simp add: js_div_def x_def)
  have p: "0 < pow2 (- 53)" by (rule pow2_pos)
  have "y1 * 100 * pow2 (- 53) \<le> 2 * x * 100 * pow2 (- 53)"
    using yb(2) p by (simp add: mult_right_mono)
  then have e2: "\<bar>y2 - y1 * 100\<bar> \<le> 200 * x * pow2 (- 53)" using y2(2) by simp
  have e1: "\<bar>y1 * 100 - 100 * x\<bar> \<le> 100 * x * pow2 (- 53)"
    using y1(2) by (simp add: abs_le_iff)
  have "\<bar>y2 - 100 * x\<bar> \<le> \<bar>y2 - y1 * 100\<bar> + \<bar>y1 * 100 - 100 * x\<bar>" by simp
  also have "\<dots> \<le> 300 * x * pow2 (- 53)" using e1 e2 by simp
  also have "\<dots> \<le> 400 * x * pow2 (- 53)"
    using x0 p by (simp add: mult_right_mono)
  also have "\<dots> = 100 * x * pow2 (- 51)"
    using pow2_add [of "- 51" "- 2"] by (simp add: pow2_def)
  finally have "\<bar>y2 - 100 * x\<bar> \<le> 100 * x * pow2 (- 51)" .
  with eq show ?thesis by (auto simp: x_def)
qed

lemma round_double_1: "round_double 1 = Fin 1"
  by code_simp

lemma round_double_100: "round_double 100 = Fin 100"
  by code_simp

lemma js_div_same: "0 < a \<Longrightarrow> js_div a a = Fin 1"
  by (simp add: js_div_def round_double_1)

lemma generateReport_successRate:
  "successRate (generateReport E s) =
     Some (js_times (js_div (length (successful (results s)))
                            (length (successful (results s)) + length (failed (results s)))) 100)"
  by (simp add: successRate_def generateReport_def now_def Let_def)

lemma js_rate_cases:
  "js_times (js_div a (a + b)) 100 =
     (if a + b = 0 then NaN else js_times (round_double (of_nat a / of_nat (a + b))) 100)"
  by (auto simp add: js_div_def)

lemma js_rate_all_successful: "0 < a \<Longrightarrow> js_times (js_div a (a + 0)) 100 = Fin 100"
  by (simp add: js_div_same round_double_100)


text \<open>
  C6. The success rate of the finalized summary is the source's expression
  \<open>successful / (successful + failed) * 100\<close> in double arithmetic: when the two buckets
  are empty it is \<open>0 / 0 * 100\<close>, which is \<open>NaN\<close>, on every such report; otherwise it is
  the quotient rounded to a double, times 100, rounded to a double. With a non-empty
  successful bucket and an empty failed one it is exactly 100, with an empty
  successful bucket and a non-empty failed one exactly 0, and for buckets of fewer than
  \<open>2 ^ 32\<close> entries (the bound of a JavaScript array) it is a finite number that
  differs from the exact quotient times 100 by at most the fraction \<open>1 / 2 ^ 51\<close> of it.
\<close>

theorem success_rate_of_report:
  "successRate (generateReport E s) =
     Some (if length (successful (results s)) + length (failed (results s)) = 0 then NaN
           else js_times
                  (round_double (of_nat (length (successful (results s))) /
                                 of_nat (length (successful (results s)) + length (failed (results s)))))
                  100) \<and>
   (successful (results s) \<noteq> [] \<and> failed (results s) = [] \<longrightarrow>
      successRate (generateReport E s) = Some (Fin 100)) \<and>
   (successful (results s) = [] \<and> failed (results s) \<noteq> [] \<longrightarrow>
      successRate (generateReport E s) = Some (Fin 0)) \<and>
   (successful (results s) \<noteq> [] \<and>
    length (successful (results s)) + length (failed (results s)) < 2 ^ 32 \<longrightarrow>
      (\<exists>y. successRate (generateReport E s) = Some (Fin y) \<and>
           \<bar>y - 100 * of_nat (length (successful (results s))) /
                  of_nat (length (successful (results s)) + length (failed (results s)))\<bar>
           \<le> 100 * of_nat (length (successful (results s))) /
               of_nat (length (successful (results s)) + length (failed (results s))) / 2 ^ 51))"
proof -
  let ?a = "length (successful (results s))" and ?b = "length (failed (results s))"
  have 1: "successRate (generateReport E s) = Some (js_times (js_div ?a (?a + ?b)) 100)"
    by (rule generateReport_successRate)
  have 2: "js_times (js_div ?a (?a + ?b)) 100 =
      (if ?a + ?b = 0 then NaN
       else js_times (round_double (of_nat ?a / of_nat (?a + ?b))) 100)"
    by (rule js_rate_cases)
  have 3: "successRate (generateReport E s) = Some (Fin 100)"
    if "successful (results s) \<noteq> []" "failed (results s) = []"
    using that js_rate_all_successful [of ?a] 1 by simp
  have 4: "successRate (generateReport E s) = Some (Fin 0)"
    if "successful (results s) = []" "failed (results s) \<noteq> []"
    using that 1 by (simp add: js_div_def round_double_def)
  have 5: "\<exists>y. successRate (generateReport E s) = Some (Fin y) \<and>
           \<bar>y - 100 * of_nat ?a / of_nat (?a + ?b)\<bar>
           \<le> 100 * of_nat ?a / of_nat (?a + ?b) / 2 ^ 51"
    if "successful (results s) \<noteq> []" "?a + ?b < 2 ^ 32"
  proof -
    have "0 < ?a" using that(1) by simp
    from js_rate_accurate [OF this that(2)] obtain y
      where y: "js_times (js_div ?a (?a + ?b)) 100 = Fin y"
        "\<bar>y - 100 * of_nat ?a / of_nat (?a + ?b)\<bar>
           \<le> 100 * of_nat ?a / of_nat (?a + ?b) * pow2 (- 51)"
      by blast
    have "pow2 (- 51) = 1 / 2 ^ 51" by (simp add: pow2_def)
    with y(2) have "\<bar>y - 100 * of_nat ?a / of_nat (?a + ?b)\<bar>
           \<le> 100 * of_nat ?a / of_nat (?a + ?b) / 2 ^ 51"
      by simp
    with y(1) 1 show ?thesis by simp
  qed
  have 12: "successRate (generateReport E s) =
     Some (if ?a + ?b = 0 then NaN
           else js_times (round_double (of_nat ?a / of_nat (?a + ?b))) 100)"
    using 1 2 by (simp only:)
  from 12 3 4 5 show ?thesis by blast
qed

theorem success_rate_of_report_witness:
  "successful (results (snd (transferEach demoEnv ''B'' [mkRepo ''r1'', mkRepo ''r2''] (demoState True)))) \<noteq> [] \<and>
   failed (results (snd (transferEach demoEnv ''B'' [mkRepo ''r1'', mkRepo ''r2''] (demoState True)))) = [] \<and>
   length (successful (results (snd (transferEach demoEnv ''B'' [mkRepo ''r1'', mkRepo ''r2''] (demoState True))))) = 2 \<and>
   successRate (generateReport demoEnv
       (snd (transferEach demoEnv ''B'' [mkRepo ''r1'', mkRepo ''r2''] (demoState True)))) = Some (Fin 100) \<and>
   successRate (generateReport demoEnv (demoState True)) = Some NaN"
proof -
  let ?s = "snd (transferEach demoEnv ''B'' [mkRepo ''r1'', mkRepo ''r2''] (demoState True))"
  have pre: "successful (results ?s) \<noteq> []" "failed (results ?s) = []"
    "length (successful (results ?s)) = 2"
    by (simp_all add: demoState_def demoEnv_def step_defs emptyResults_def Let_def)
  have z: "length (successful (results (demoState True))) +
           length (failed (results (demoState True))) = 0"
    by (simp add: demoState_def emptyResults_def)
  have n: "successRate (generateReport demoEnv (demoState True)) = Some NaN"
    using success_rate_of_report [of demoEnv "demoState True"] z by simp
  from success_rate_of_report [of demoEnv ?s] pre n
  show ?thesis by blast
qed

end
